theory Spec2Isabelle
  imports Main
begin

section \<open>The QEMU supervisor of out-of-tree (qemu/qemu-kernel.go)\<close>

text \<open>
  A shallow embedding of the Go package \<open>qemukernel\<close>. The supervisor struct is a
  record, Go's \<open>error\<close> values are a datatype, a run-time panic is a value of its own,
  and everything the code asks of its host (the file system, the executable search
  path, the clock, the random source, the network stack, the child process and the
  goroutines running beside the caller) is answered by an explicit \<open>host\<close> record.
\<close>

subsection \<open>Data model\<close>

type_synonym arch = string

definition X86_64 :: arch where
  "X86_64 = ''x86_64''"

definition I386 :: arch where
  "I386 = ''i386''"

definition unsupported :: arch where
  "unsupported = ''unsupported''"

record Kernel =
  Name :: string
  KernelPath :: string
  InitrdPath :: string

datatype errno = ENOENT | EACCES | ENOTDIR | EMFILE

text \<open>
  The error values the package handles: \<open>exec.LookPath\<close> fails with an
  \<open>*exec.Error\<close> naming the file, \<open>os.Stat\<close> fails with an \<open>*os.PathError\<close>
  holding the operation, the path and the errno, \<open>errors.New\<close> builds an error from
  a string, and pipe creation and process start fail with an error of the operating
  system.
\<close>

datatype error =
    ExecError string
  | PathError string string errno
  | ErrorString string
  | SyscallError string errno

datatype panic =
    NilDereference
  | IndexOutOfRange nat nat
  | PanicString string

datatype 'a outcome = Returned 'a | Panicked panic

text \<open>\<open>*exec.Cmd\<close>: the program, its arguments, and whether \<open>Process\<close> is set.\<close>

record Cmd =
  Path :: string
  Args :: "string list"
  Process :: bool

record QemuSystem =
  arch :: arch
  kernel :: Kernel
  drivePath :: string
  Cpus :: int
  Memory :: int
  debug :: bool
  gdb :: string
  Timeout :: int
  KilledByTimeout :: bool
  KernelPanic :: bool
  Died :: bool
  sshAddrPort :: string
  cmd :: "Cmd option"
  pipe_stdin :: bool
  pipe_stderr :: bool
  pipe_stdout :: bool
  Stdout :: string
  Stderr :: string
  exitErr :: "error option"

text \<open>Go's zero value of the struct, which \<open>&QemuSystem{}\<close> allocates.\<close>

definition zero_Kernel :: Kernel where
  "zero_Kernel = \<lparr>Name = [], KernelPath = [], InitrdPath = []\<rparr>"

definition zero_QemuSystem :: QemuSystem where
  "zero_QemuSystem =
     \<lparr>arch = [], kernel = zero_Kernel, drivePath = [], Cpus = 0, Memory = 0,
      debug = False, gdb = [], Timeout = 0, KilledByTimeout = False,
      KernelPanic = False, Died = False, sshAddrPort = [], cmd = None,
      pipe_stdin = False, pipe_stderr = False, pipe_stdout = False,
      Stdout = [], Stderr = [], exitErr = None\<rparr>"

subsection \<open>The host\<close>

text \<open>
  What the goroutines running beside the caller (the two output readers and the
  liveness monitor of \<open>Start\<close>) do to the supervisor while the caller sleeps: bytes
  appended to the two accumulators, and whether the monitor's \<open>cmd.Wait\<close> has
  returned, so that it stored the exit error and set \<open>Died\<close>.
\<close>

record progress =
  out_bytes :: string
  err_bytes :: string
  exited :: bool
  wait_err :: "error option"

text \<open>
  Every question to the host is numbered by a counter (\<open>tick\<close> below), so the same
  question can be answered differently each time it is asked.
\<close>

record host =
  GOOS :: string
  lookPath :: "string \<Rightarrow> bool"
  stat :: "string \<Rightarrow> errno option"
  now :: "nat \<Rightarrow> int"
  randInt :: "int \<Rightarrow> nat \<Rightarrow> nat"
  listen_ok :: "nat \<Rightarrow> string \<Rightarrow> bool"
  pipeErr :: "nat \<Rightarrow> error option"
  startErr :: "error option"
  sched :: "nat \<Rightarrow> progress"
  combinedOutput :: "string \<Rightarrow> string list \<Rightarrow> string \<times> bool"

subsection \<open>The constructor\<close>

definition exec_LookPath :: "host \<Rightarrow> string \<Rightarrow> error option" where
  "exec_LookPath h file = (if lookPath h file then None else Some (ExecError file))"

definition os_Stat :: "host \<Rightarrow> string \<Rightarrow> error option" where
  "os_Stat h name =
     (case stat h name of None \<Rightarrow> None | Some e \<Rightarrow> Some (PathError ''stat'' name e))"

text \<open>
  \<open>NewQemuSystem\<close> has the named results \<open>(q *QemuSystem, err error)\<close>; every
  \<open>return\<close> hands back whatever both hold at that point.
\<close>

definition NewQemuSystem ::
  "host \<Rightarrow> arch \<Rightarrow> Kernel \<Rightarrow> string \<Rightarrow> QemuSystem option \<times> error option" where
  "NewQemuSystem h a k d =
     (case exec_LookPath h (''qemu-system-'' @ a) of
        Some e \<Rightarrow> (None, Some e)
      | None \<Rightarrow>
          (let q1 = zero_QemuSystem\<lparr>arch := a\<rparr> in
           case os_Stat h (KernelPath k) of
             Some e \<Rightarrow> (Some q1, Some e)
           | None \<Rightarrow>
               (let q2 = q1\<lparr>kernel := k\<rparr> in
                case os_Stat h d of
                  Some e \<Rightarrow> (Some q2, Some e)
                | None \<Rightarrow>
                    (Some (q2\<lparr>drivePath := d, Cpus := 1, Memory := 512\<rparr>), None))))"

subsection \<open>Effects\<close>

text \<open>
  An event records something the package does to the world outside: a write to the
  child's stdin, a sleep, a call of \<open>q.cmd.Process.Signal\<close> (whatever the runtime and
  the operating system then make of it), the launch of a goroutine, the start of the
  child process, a bind attempt and the release of the listener.
\<close>

datatype signal = SIGTERM | SIGKILL

datatype goroutine = ReadStdout | ReadStderr | WaitProcess | PanicWatcher | TimeoutEnforcer

datatype event =
    WriteStdin string
  | Sleep int
  | Signal signal
  | Go goroutine
  | StartProcess string "string list"
  | Listen string
  | CloseListener string

text \<open>
  The supervisor together with what has been done so far (oldest event first), the
  number of questions put to the host, and the seed of the global random source.
\<close>

record world =
  sys :: QemuSystem
  trace :: "event list"
  tick :: nat
  seed :: int

definition emit :: "event \<Rightarrow> world \<Rightarrow> world" where
  "emit e w = w\<lparr>trace := trace w @ [e]\<rparr>"

definition events_since :: "world \<Rightarrow> world \<Rightarrow> event list" where
  "events_since w w' = drop (length (trace w)) (trace w')"

text \<open>\<open>time.Duration\<close> counts nanoseconds.\<close>

definition Second :: int where
  "Second = 1000000000"

definition background :: "progress \<Rightarrow> QemuSystem \<Rightarrow> QemuSystem" where
  "background p q =
     (let q1 = q\<lparr>Stdout := Stdout q @ out_bytes p, Stderr := Stderr q @ err_bytes p\<rparr>
      in if exited p then q1\<lparr>exitErr := wait_err p, Died := True\<rparr> else q1)"

text \<open>
  \<open>time.Sleep\<close>: while the caller sleeps the other goroutines run. Every read of
  shared state in the package (\<open>q.Died\<close>, \<open>q.Stdout\<close>, \<open>q.Stderr\<close>) stands right
  after a sleep.
\<close>

definition time_Sleep :: "host \<Rightarrow> int \<Rightarrow> world \<Rightarrow> world" where
  "time_Sleep h d w =
     w\<lparr>sys := background (sched h (tick w)) (sys w),
       trace := trace w @ [Sleep d],
       tick := Suc (tick w)\<rparr>"

definition time_Now :: "host \<Rightarrow> world \<Rightarrow> int \<times> world" where
  "time_Now h w = (now h (tick w), w\<lparr>tick := Suc (tick w)\<rparr>)"

definition rand_Seed :: "int \<Rightarrow> world \<Rightarrow> world" where
  "rand_Seed s w = w\<lparr>seed := s\<rparr>"

text \<open>\<open>rand.Int\<close> returns a non-negative \<open>int\<close>.\<close>

definition rand_Int :: "host \<Rightarrow> world \<Rightarrow> nat \<times> world" where
  "rand_Int h w = (randInt h (seed w) (tick w), w\<lparr>tick := Suc (tick w)\<rparr>)"

definition net_Listen :: "host \<Rightarrow> string \<Rightarrow> world \<Rightarrow> bool \<times> world" where
  "net_Listen h a w =
     (listen_ok h (tick w) a, w\<lparr>trace := trace w @ [Listen a], tick := Suc (tick w)\<rparr>)"

subsection \<open>Strings\<close>

text \<open>The verb \<open>%d\<close> of \<open>fmt.Sprintf\<close>: decimal digits, with a sign when negative.\<close>

fun utoa :: "nat \<Rightarrow> string" where
  "utoa n =
     (if n < 10 then [''0123456789'' ! n]
      else utoa (n div 10) @ [''0123456789'' ! (n mod 10)])"

declare utoa.simps [simp del]

definition itoa :: "int \<Rightarrow> string" where
  "itoa i = (if i < 0 then CHR ''-'' # utoa (nat (- i)) else utoa (nat i))"

fun HasPrefix :: "string \<Rightarrow> string \<Rightarrow> bool" where
  "HasPrefix s [] = True"
| "HasPrefix [] (p # ps) = False"
| "HasPrefix (c # cs) (p # ps) = (c = p \<and> HasPrefix cs ps)"

text \<open>\<open>bytes.Contains(b, sub)\<close>: \<open>sub\<close> stands somewhere within \<open>b\<close>.\<close>

fun bytes_Contains :: "string \<Rightarrow> string \<Rightarrow> bool" where
  "bytes_Contains [] sub = (sub = [])"
| "bytes_Contains (c # cs) sub = (HasPrefix (c # cs) sub \<or> bytes_Contains cs sub)"

text \<open>
  \<open>strings.Split(s, sep)\<close>. For a separator that is not empty (\<open>genSplit\<close>): the
  pieces between the occurrences of \<open>sep\<close>, found from the left; a string without
  the separator (the empty one too) is the only piece. For the empty separator the
  string is split after each character.
\<close>

function genSplit :: "string \<Rightarrow> string \<Rightarrow> string list" where
  "genSplit [] sep = [[]]"
| "genSplit (c # cs) sep =
     (if sep \<noteq> [] \<and> HasPrefix (c # cs) sep
      then [] # genSplit (drop (length sep) (c # cs)) sep
      else (case genSplit cs sep of
              [] \<Rightarrow> [[c]]
            | p # ps \<Rightarrow> (c # p) # ps))"
  by pat_completeness auto
termination
  by (relation "measure (\<lambda>(s, sep). length s)") (auto simp: neq_Nil_conv)

definition strings_Split :: "string \<Rightarrow> string \<Rightarrow> string list" where
  "strings_Split s sep = (if sep = [] then map (\<lambda>c. [c]) s else genSplit s sep)"

subsection \<open>The port allocator\<close>

definition getRandomAddrPort :: "host \<Rightarrow> world \<Rightarrow> string \<times> world" where
  "getRandomAddrPort h w =
     (let (r1, w1) = rand_Int h w;
          (r2, w2) = rand_Int h w1;
          (r3, w3) = rand_Int h w2;
          ip = ''127.'' @ itoa (int (r1 mod 254 + 1)) @ ''.'' @ itoa (int (r2 mod 255))
                 @ ''.'' @ itoa (int (r3 mod 254));
          (r4, w4) = rand_Int h w3;
          port = r4 mod 40000 + 10000
      in (ip @ '':'' @ itoa (int port), w4))"

definition getRandomPort :: "host \<Rightarrow> string \<Rightarrow> world \<Rightarrow> string \<times> world" where
  "getRandomPort h ip w =
     (let (r, w1) = rand_Int h w;
          port = r mod (65536 - 1024) + 1024
      in (ip @ '':'' @ itoa (int port), w1))"

text \<open>
  The loop of \<open>getFreeAddrPort\<close>, with the deadline computed before it. It has no
  bound of its own: it ends when a bind succeeds or when the clock, read after a
  failed bind, is past the deadline.
\<close>

partial_function (option) getFreeAddrPort_loop ::
  "host \<Rightarrow> int \<Rightarrow> world \<Rightarrow> (string outcome \<times> world) option" where
  "getFreeAddrPort_loop h timeout w =
     (let (addrPort, w1) =
            (if GOOS h = ''linux'' then getRandomAddrPort h w
             else getRandomPort h ''127.0.0.1'' w);
          (ok, w2) = net_Listen h addrPort w1
      in if ok then Some (Returned addrPort, emit (CloseListener addrPort) w2)
         else (let (t, w3) = time_Now h w2
               in if timeout < t
                  then Some (Panicked (PanicString
                          ''Can't found free address:port on localhost''), w3)
                  else getFreeAddrPort_loop h timeout w3))"

definition getFreeAddrPort :: "host \<Rightarrow> world \<Rightarrow> (string outcome \<times> world) option" where
  "getFreeAddrPort h w =
     (let (t0, w1) = time_Now h w in getFreeAddrPort_loop h (t0 + Second) w1)"

subsection \<open>Launch arguments\<close>

definition kvmExists :: "host \<Rightarrow> bool" where
  "kvmExists h = (case os_Stat h ''/dev/kvm'' of Some e \<Rightarrow> False | None \<Rightarrow> True)"

text \<open>The argument list \<open>qemuArgs\<close> that \<open>Start\<close> builds before it creates the command.\<close>

definition qemuArgs :: "host \<Rightarrow> QemuSystem \<Rightarrow> string list" where
  "qemuArgs h q =
     (let hostfwd = ''hostfwd=tcp:'' @ sshAddrPort q @ ''-:22'';
          a0 = [''-snapshot'', ''-nographic'',
                ''-hda'', drivePath q,
                ''-kernel'', KernelPath (kernel q),
                ''-append'', ''root=/dev/sda ignore_loglevel console=ttyS0 rw'',
                ''-smp'', itoa (Cpus q),
                ''-m'', itoa (Memory q),
                ''-device'', ''e1000,netdev=n1'',
                ''-netdev'', ''user,id=n1,'' @ hostfwd];
          a1 = (if debug q then a0 @ [''-gdb'', gdb q] else a0);
          a2 = (if InitrdPath (kernel q) \<noteq> [] then a1 @ [''-initrd'', InitrdPath (kernel q)]
                else a1);
          a3 = (if (arch q = X86_64 \<or> arch q = I386) \<and> kvmExists h
                then a2 @ [''-enable-kvm''] else a2);
          a4 = (if arch q = X86_64 \<and> GOOS h = ''darwin''
                then a3 @ [''-accel'', ''hvf'', ''-cpu'', ''host''] else a3)
      in a4)"

subsection \<open>Stop\<close>

text \<open>The bytes that \<open>fmt.Fprintf(q.pipe.stdin, "%cx", 1)\<close> writes: Ctrl-A, then x.\<close>

definition quit_sequence :: string where
  "quit_sequence = [CHR 0x01, CHR ''x'']"

text \<open>
  Writing through a nil pipe and signalling through a nil command or a nil process
  dereference a nil pointer. A failed write or signal returns an error that \<open>Stop\<close>
  drops.
\<close>

definition Stop :: "host \<Rightarrow> world \<Rightarrow> unit outcome \<times> world" where
  "Stop h w =
     (if \<not> pipe_stdin (sys w) then (Panicked NilDereference, w)
      else
        (let w1 = emit (WriteStdin quit_sequence) w;
             w2 = time_Sleep h (Second div 10) w1
         in if \<not> Died (sys w2) then
              (case cmd (sys w2) of
                 None \<Rightarrow> (Panicked NilDereference, w2)
               | Some c \<Rightarrow>
                   if \<not> Process c then (Panicked NilDereference, w2)
                   else
                     (let w3 = emit (Signal SIGTERM) w2;
                          w4 = time_Sleep h (Second div 10) w3;
                          w5 = emit (Signal SIGKILL) w4
                      in (Returned (), w5)))
            else (Returned (), w2)))"

subsection \<open>The monitors\<close>

partial_function (option) panicWatcher ::
  "host \<Rightarrow> world \<Rightarrow> (unit outcome \<times> world) option" where
  "panicWatcher h w =
     (let w1 = time_Sleep h Second w
      in if bytes_Contains (Stdout (sys w1)) ''Kernel panic'' then
           (let w2 = time_Sleep h Second w1
            in case Stop h w2 of
                 (Panicked p, w3) \<Rightarrow> Some (Panicked p, w3)
               | (Returned u, w3) \<Rightarrow>
                   Some (Returned (), w3\<lparr>sys := (sys w3)\<lparr>KernelPanic := True\<rparr>\<rparr>))
         else panicWatcher h w1)"

text \<open>The world after \<open>n\<close> sleeps of one second, the watcher's polling interval.\<close>

primrec polls :: "host \<Rightarrow> nat \<Rightarrow> world \<Rightarrow> world" where
  "polls h 0 w = w"
| "polls h (Suc n) w = polls h n (time_Sleep h Second w)"

text \<open>The goroutine that \<open>Start\<close> launches when \<open>q.Timeout\<close> is not zero.\<close>

definition timeoutEnforcer :: "host \<Rightarrow> world \<Rightarrow> unit outcome \<times> world" where
  "timeoutEnforcer h w =
     (let w1 = time_Sleep h (Timeout (sys w)) w;
          w2 = w1\<lparr>sys := (sys w1)\<lparr>KilledByTimeout := True\<rparr>\<rparr>
      in Stop h w2)"

subsection \<open>Start\<close>

text \<open>
  The three pipes are asked of the host as \<open>pipeErr h 0\<close> (stdin), \<open>pipeErr h 1\<close>
  (stdout) and \<open>pipeErr h 2\<close> (stderr). The readers and the liveness monitor that
  \<open>Start\<close> launches act on the supervisor through \<open>time_Sleep\<close>.
\<close>

definition Start :: "host \<Rightarrow> world \<Rightarrow> (error option outcome \<times> world) option" where
  "Start h w =
     (let (t, w1) = time_Now h w;
          w2 = rand_Seed t w1
      in case getFreeAddrPort h w2 of
           None \<Rightarrow> None
         | Some (Panicked p, w3) \<Rightarrow> Some (Panicked p, w3)
         | Some (Returned addrPort, w3) \<Rightarrow>
             Some
              (let q1 = (sys w3)\<lparr>sshAddrPort := addrPort\<rparr>;
                   c = \<lparr>Path = ''qemu-system-'' @ arch q1, Args = qemuArgs h q1,
                        Process = False\<rparr>;
                   w4 = w3\<lparr>sys := q1\<lparr>cmd := Some c\<rparr>\<rparr>
               in case pipeErr h 0 of
                    Some e \<Rightarrow> (Returned (Some e), w4\<lparr>sys := (sys w4)\<lparr>pipe_stdin := False\<rparr>\<rparr>)
                  | None \<Rightarrow>
               (let w5 = w4\<lparr>sys := (sys w4)\<lparr>pipe_stdin := True\<rparr>\<rparr>
                in case pipeErr h 1 of
                     Some e \<Rightarrow> (Returned (Some e), w5\<lparr>sys := (sys w5)\<lparr>pipe_stdout := False\<rparr>\<rparr>)
                   | None \<Rightarrow>
               (let w6 = w5\<lparr>sys := (sys w5)\<lparr>pipe_stdout := True\<rparr>\<rparr>
                in case pipeErr h 2 of
                     Some e \<Rightarrow> (Returned (Some e), w6\<lparr>sys := (sys w6)\<lparr>pipe_stderr := False\<rparr>\<rparr>)
                   | None \<Rightarrow>
               (let w7 = w6\<lparr>sys := (sys w6)\<lparr>pipe_stderr := True\<rparr>\<rparr>
                in case startErr h of
                     Some e \<Rightarrow> (Returned (Some e), w7)
                   | None \<Rightarrow>
               (let w8 = w7\<lparr>sys := (sys w7)\<lparr>cmd := Some (c\<lparr>Process := True\<rparr>)\<rparr>,
                            trace := trace w7 @
                              [StartProcess (Path c) (Args c),
                               Go ReadStdout, Go ReadStderr, Go WaitProcess]\<rparr>;
                    w9 = time_Sleep h (Second div 10) w8;
                    err = (if Died (sys w9)
                           then Some (ErrorString
                                  (''qemu died immediately: '' @ Stderr (sys w9)))
                           else None);
                    w10 = emit (Go PanicWatcher) w9;
                    w11 = (if Timeout (sys w10) \<noteq> 0
                           then emit (Go TimeoutEnforcer) w10 else w10)
                in (Returned err, w11)))))))"

subsection \<open>Access over ssh\<close>

definition Debug :: "string \<Rightarrow> QemuSystem \<Rightarrow> QemuSystem" where
  "Debug conn q = q\<lparr>debug := True, gdb := conn\<rparr>"

text \<open>Indexing a slice: out of range is a run-time panic.\<close>

definition index :: "'a list \<Rightarrow> nat \<Rightarrow> 'a outcome" where
  "index xs i =
     (if i < length xs then Returned (xs ! i) else Panicked (IndexOutOfRange i (length xs)))"

definition GetSshCommand :: "QemuSystem \<Rightarrow> string outcome" where
  "GetSshCommand q =
     (let addrPort = strings_Split (sshAddrPort q) '':'' in
      case index addrPort 0 of
        Panicked p \<Rightarrow> Panicked p
      | Returned addr \<Rightarrow>
          (case index addrPort 1 of
             Panicked p \<Rightarrow> Panicked p
           | Returned port \<Rightarrow>
               Returned (''ssh -o StrictHostKeyChecking=no''
                         @ '' -p '' @ port @ '' root@'' @ addr)))"

text \<open>
  \<open>combinedOutput h name args\<close> is what running the command gives: its output, and
  whether it failed.
\<close>

definition CopyFile ::
  "host \<Rightarrow> QemuSystem \<Rightarrow> string \<Rightarrow> string \<Rightarrow> string \<Rightarrow> error option outcome" where
  "CopyFile h q user localPath remotePath =
     (let addrPort = strings_Split (sshAddrPort q) '':'' in
      case index addrPort 0 of
        Panicked p \<Rightarrow> Panicked p
      | Returned addr \<Rightarrow>
          (case index addrPort 1 of
             Panicked p \<Rightarrow> Panicked p
           | Returned port \<Rightarrow>
               (let (output, failed) =
                      combinedOutput h ''scp''
                        [''-P'', port,
                         ''-o'', ''StrictHostKeyChecking=no'',
                         ''-o'', ''LogLevel=error'',
                         localPath, user @ ''@'' @ addr @ '':'' @ remotePath]
                in if failed then Returned (Some (ErrorString output))
                   else Returned None)))"

subsection \<open>Example hosts and supervisors\<close>

text \<open>
  A Linux host with the emulator for x86_64 on its search path, a kernel, a disk
  image and \<open>/dev/kvm\<close>, on which every bind succeeds, the clock advances by a tenth
  of a second from one reading to the next, and the child process neither prints nor
  exits; and a supervisor for it, as the constructor returns it (\<open>fresh\<close>) and as a
  successful \<open>Start\<close> leaves it (\<open>live\<close>).
\<close>

definition quiet :: progress where
  "quiet = \<lparr>out_bytes = [], err_bytes = [], exited = False, wait_err = None\<rparr>"

definition example_host :: host where
  "example_host =
     \<lparr>GOOS = ''linux'',
      lookPath = (\<lambda>f. f = ''qemu-system-x86_64''),
      stat = (\<lambda>p. if p = ''/boot/vmlinuz'' \<or> p = ''/img/rootfs.img'' \<or> p = ''/dev/kvm''
                   then None else Some ENOENT),
      now = (\<lambda>k. int k * 100000000),
      randInt = (\<lambda>s k. 7),
      listen_ok = (\<lambda>k a. True),
      pipeErr = (\<lambda>i. None),
      startErr = None,
      sched = (\<lambda>k. quiet),
      combinedOutput = (\<lambda>n a. ([], False))\<rparr>"

definition example_kernel :: Kernel where
  "example_kernel = \<lparr>Name = ''test'', KernelPath = ''/boot/vmlinuz'', InitrdPath = []\<rparr>"

definition example_sys :: QemuSystem where
  "example_sys =
     zero_QemuSystem\<lparr>arch := X86_64, kernel := example_kernel,
       drivePath := ''/img/rootfs.img'', Cpus := 1, Memory := 512\<rparr>"

definition fresh :: world where
  "fresh = \<lparr>sys = example_sys, trace = [], tick = 0, seed = 0\<rparr>"

definition live :: world where
  "live =
     \<lparr>sys = example_sys\<lparr>sshAddrPort := ''127.8.7.7:10007'',
              cmd := Some \<lparr>Path = ''qemu-system-x86_64'', Args = [], Process = True\<rparr>,
              pipe_stdin := True, pipe_stdout := True, pipe_stderr := True\<rparr>,
      trace = [], tick = 0, seed = 0\<rparr>"

section \<open>Properties\<close>

subsection \<open>Projections\<close>

lemma emit_simps:
  "sys (emit e w) = sys w" "trace (emit e w) = trace w @ [e]" "tick (emit e w) = tick w"
  "seed (emit e w) = seed w"
  by (simp_all add: emit_def)

lemma background_simps:
  "Died (background p q) = (Died q \<or> exited p)"
  "pipe_stdin (background p q) = pipe_stdin q"
  "cmd (background p q) = cmd q"
  "Timeout (background p q) = Timeout q"
  "KilledByTimeout (background p q) = KilledByTimeout q"
  "KernelPanic (background p q) = KernelPanic q"
  "sshAddrPort (background p q) = sshAddrPort q"
  "Stdout (background p q) = Stdout q @ out_bytes p"
  "Stderr (background p q) = Stderr q @ err_bytes p"
  by (simp_all add: background_def Let_def)

lemma time_Sleep_simps:
  "sys (time_Sleep h d w) = background (sched h (tick w)) (sys w)"
  "trace (time_Sleep h d w) = trace w @ [Sleep d]"
  "tick (time_Sleep h d w) = Suc (tick w)"
  "seed (time_Sleep h d w) = seed w"
  by (simp_all add: time_Sleep_def)

lemma events_since_append: "events_since w (w'\<lparr>trace := trace w @ es\<rparr>) = es"
  by (simp add: events_since_def)

lemma events_since_trace: "trace w' = trace w @ es \<Longrightarrow> events_since w w' = es"
  by (simp add: events_since_def)

text \<open>What Stop adds to the trace.\<close>

lemma Stop_trace:
  "trace (snd (Stop h w)) = trace w @
     (if \<not> pipe_stdin (sys w) then []
      else [WriteStdin quit_sequence, Sleep (Second div 10)] @
        (if Died (sys w) \<or> exited (sched h (tick w)) then []
         else (case cmd (sys w) of None \<Rightarrow> []
               | Some c \<Rightarrow> if Process c then [Signal SIGTERM, Sleep (Second div 10), Signal SIGKILL] else [])))"
  by (simp add: Stop_def Let_def emit_simps time_Sleep_simps background_simps split: option.splits)

lemma Stop_events:
  "events_since w (snd (Stop h w)) =
     (if \<not> pipe_stdin (sys w) then []
      else [WriteStdin quit_sequence, Sleep (Second div 10)] @
        (if Died (sys w) \<or> exited (sched h (tick w)) then []
         else (case cmd (sys w) of None \<Rightarrow> []
               | Some c \<Rightarrow> if Process c then [Signal SIGTERM, Sleep (Second div 10), Signal SIGKILL] else [])))"
  by (rule events_since_trace) (rule Stop_trace)

lemma quiet_simps:
  "out_bytes quiet = []" "err_bytes quiet = []" "exited quiet = False" "wait_err quiet = None"
  by (simp_all add: quiet_def)

lemma example_host_simps:
  "GOOS example_host = ''linux''"
  "lookPath example_host f = (f = ''qemu-system-x86_64'')"
  "stat example_host p =
     (if p = ''/boot/vmlinuz'' \<or> p = ''/img/rootfs.img'' \<or> p = ''/dev/kvm''
      then None else Some ENOENT)"
  "now example_host k = int k * 100000000"
  "randInt example_host s k = 7"
  "listen_ok example_host k a = True"
  "pipeErr example_host i = None"
  "startErr example_host = None"
  "sched example_host k = quiet"
  by (simp_all add: example_host_def)

lemma live_simps:
  "pipe_stdin (sys live) = True" "Died (sys live) = False"
  "cmd (sys live) = Some \<lparr>Path = ''qemu-system-x86_64'', Args = [], Process = True\<rparr>"
  "tick live = 0" "trace live = []" "Stdout (sys live) = []" "Timeout (sys live) = 0"
  by (simp_all add: live_def example_sys_def zero_QemuSystem_def)


lemma fresh_simps:
  "sys fresh = example_sys" "trace fresh = []" "tick fresh = 0" "seed fresh = 0"
  by (simp_all add: fresh_def)

subsection \<open>The shutdown protocol\<close>

text \<open>
  Claim C1, as the code has it. Each call of \<open>Stop\<close> writes the quit sequence and
  waits a tenth of a second. The terminate signal is sent only if \<open>Died\<close> is not set
  after that first wait. The kill signal is sent exactly when the terminate signal
  was sent: it follows the second wait without another look at \<open>Died\<close>. A call that
  finds \<open>Died\<close> already set sends no signal. A call that returns has done exactly
  the write and the wait, followed by terminate, wait and kill when \<open>Died\<close> was not
  set after the first wait.
\<close>

theorem Stop_signals:
  "(Signal SIGTERM \<in> set (events_since w (snd (Stop h w))) \<longrightarrow>
      \<not> Died (sys (time_Sleep h (Second div 10) (emit (WriteStdin quit_sequence) w)))) \<and>
   (Signal SIGKILL \<in> set (events_since w (snd (Stop h w))) \<longleftrightarrow>
      Signal SIGTERM \<in> set (events_since w (snd (Stop h w)))) \<and>
   (Died (sys w) \<longrightarrow> (\<forall>s. Signal s \<notin> set (events_since w (snd (Stop h w))))) \<and>
   (fst (Stop h w) = Returned () \<longrightarrow>
      events_since w (snd (Stop h w)) =
        [WriteStdin quit_sequence, Sleep (Second div 10)] @
        (if Died (sys (time_Sleep h (Second div 10) (emit (WriteStdin quit_sequence) w))) then []
         else [Signal SIGTERM, Sleep (Second div 10), Signal SIGKILL]))"
  apply (simp add: Stop_events emit_simps time_Sleep_simps background_simps split: option.splits)
  apply (auto simp add: Stop_def Let_def emit_simps time_Sleep_simps background_simps split: option.splits)
  done

theorem Stop_signals_witness:
  "Signal SIGTERM \<in> set (events_since live (snd (Stop example_host live))) \<and>
   \<not> Died (sys (time_Sleep example_host (Second div 10) (emit (WriteStdin quit_sequence) live))) \<and>
   Died (sys (live\<lparr>sys := (sys live)\<lparr>Died := True\<rparr>\<rparr>)) \<and>
   (\<forall>s. Signal s \<notin> set (events_since (live\<lparr>sys := (sys live)\<lparr>Died := True\<rparr>\<rparr>)
       (snd (Stop example_host (live\<lparr>sys := (sys live)\<lparr>Died := True\<rparr>\<rparr>))))) \<and>
   fst (Stop example_host live) = Returned () \<and>
   events_since live (snd (Stop example_host live)) =
     [WriteStdin quit_sequence, Sleep (Second div 10),
      Signal SIGTERM, Sleep (Second div 10), Signal SIGKILL]"
proof -
  let ?dead = "live\<lparr>sys := (sys live)\<lparr>Died := True\<rparr>\<rparr>"
  note S = Stop_signals [of live example_host]
  note T = Stop_signals [of ?dead example_host]
  have a: "Signal SIGTERM \<in> set (events_since live (snd (Stop example_host live)))"
    by (simp add: Stop_events live_simps example_host_simps quiet_simps)
  have b: "Died (sys ?dead)"
    by simp
  have c: "fst (Stop example_host live) = Returned ()"
    by (simp add: Stop_def Let_def emit_simps time_Sleep_simps background_simps
        live_simps example_host_simps quiet_simps)
  from S [THEN conjunct1] a
  have d: "\<not> Died (sys (time_Sleep example_host (Second div 10)
                 (emit (WriteStdin quit_sequence) live)))"
    by (rule mp)
  from S [THEN conjunct2, THEN conjunct2, THEN conjunct2] c
  have "events_since live (snd (Stop example_host live)) =
        [WriteStdin quit_sequence, Sleep (Second div 10)] @
        (if Died (sys (time_Sleep example_host (Second div 10)
                    (emit (WriteStdin quit_sequence) live))) then []
         else [Signal SIGTERM, Sleep (Second div 10), Signal SIGKILL])"
    by (rule mp)
  also have "\<dots> = [WriteStdin quit_sequence, Sleep (Second div 10),
      Signal SIGTERM, Sleep (Second div 10), Signal SIGKILL]"
    using d by simp
  finally have e: "events_since live (snd (Stop example_host live)) =
     [WriteStdin quit_sequence, Sleep (Second div 10),
      Signal SIGTERM, Sleep (Second div 10), Signal SIGKILL]" .
  from T [THEN conjunct2, THEN conjunct2, THEN conjunct1] b
  have f: "\<forall>s. Signal s \<notin> set (events_since ?dead (snd (Stop example_host ?dead)))"
    by (rule mp)
  show ?thesis
    by (intro conjI) (rule a d b f c e)+
qed

text \<open>
  The claim as it is written fails when the process exits during the second wait
  (here the liveness monitor sets \<open>Died\<close> while \<open>Stop\<close> sleeps for the second
  time): the kill signal is sent although \<open>Died\<close> is set by then.
\<close>

theorem Stop_kill_after_exit_counterexample:
  "Signal SIGKILL \<in> set (events_since live
      (snd (Stop (example_host\<lparr>sched := (\<lambda>k. if k = 1 then quiet\<lparr>exited := True\<rparr> else quiet)\<rparr>) live))) \<and>
   Died (sys (snd (Stop (example_host\<lparr>sched := (\<lambda>k. if k = 1 then quiet\<lparr>exited := True\<rparr> else quiet)\<rparr>) live)))"
proof -
  let ?h = "example_host\<lparr>sched := (\<lambda>k. if k = 1 then quiet\<lparr>exited := True\<rparr> else quiet)\<rparr>"
  have s: "sched ?h k = (if k = 1 then quiet\<lparr>exited := True\<rparr> else quiet)" for k
    by simp
  have "Signal SIGKILL \<in> set (events_since live (snd (Stop ?h live)))"
    by (simp add: Stop_events live_simps s quiet_simps)
  moreover have "Died (sys (snd (Stop ?h live)))"
    by (simp add: Stop_def Let_def emit_simps time_Sleep_simps background_simps
        live_simps s quiet_simps)
  ultimately show ?thesis by blast
qed

subsection \<open>The constructor\<close>

text \<open>
  Claim C6. The constructor spawns nothing: it only asks the host for the emulator
  binary and for the two paths. A kernel path or a disk path that \<open>os.Stat\<close>
  rejects always gives an error. When the emulator binary is found and the kernel
  path does not exist, the error is the \<open>stat\<close> error of the kernel path; when the
  kernel path exists and the disk path does not, it is the \<open>stat\<close> error of the disk
  path, which differs from that of the kernel path. A call that returns no error
  returns a supervisor with 1 CPU and 512 megabytes of memory.
\<close>

theorem NewQemuSystem_validation:
  "(stat h (KernelPath k) \<noteq> None \<longrightarrow> snd (NewQemuSystem h a k d) \<noteq> None) \<and>
   (stat h d \<noteq> None \<longrightarrow> snd (NewQemuSystem h a k d) \<noteq> None) \<and>
   (lookPath h (''qemu-system-'' @ a) \<and> stat h (KernelPath k) = Some ENOENT \<longrightarrow>
      snd (NewQemuSystem h a k d) = Some (PathError ''stat'' (KernelPath k) ENOENT)) \<and>
   (lookPath h (''qemu-system-'' @ a) \<and> stat h (KernelPath k) = None \<and> stat h d = Some ENOENT \<longrightarrow>
      snd (NewQemuSystem h a k d) = Some (PathError ''stat'' d ENOENT) \<and>
      PathError ''stat'' d ENOENT \<noteq> PathError ''stat'' (KernelPath k) ENOENT) \<and>
   (snd (NewQemuSystem h a k d) = None \<longrightarrow>
      (\<exists>q. fst (NewQemuSystem h a k d) = Some q \<and> Cpus q = 1 \<and> Memory q = 512))"
  by (auto simp: NewQemuSystem_def exec_LookPath_def os_Stat_def Let_def split: option.splits)

theorem NewQemuSystem_validation_witness:
  "snd (NewQemuSystem example_host X86_64 (example_kernel\<lparr>KernelPath := ''/boot/missing''\<rparr>)
      ''/img/rootfs.img'') \<noteq> None \<and>
   snd (NewQemuSystem example_host X86_64 example_kernel ''/img/missing.img'') \<noteq> None \<and>
   snd (NewQemuSystem example_host X86_64 (example_kernel\<lparr>KernelPath := ''/boot/missing''\<rparr>)
      ''/img/rootfs.img'') = Some (PathError ''stat'' ''/boot/missing'' ENOENT) \<and>
   snd (NewQemuSystem example_host X86_64 example_kernel ''/img/missing.img'')
     = Some (PathError ''stat'' ''/img/missing.img'' ENOENT) \<and>
   (\<exists>q. fst (NewQemuSystem example_host X86_64 example_kernel ''/img/rootfs.img'') = Some q \<and>
        Cpus q = 1 \<and> Memory q = 512)"
proof -
  let ?k = "example_kernel\<lparr>KernelPath := ''/boot/missing''\<rparr>"
  have bin: "lookPath example_host (''qemu-system-'' @ X86_64)"
    by (simp add: example_host_simps X86_64_def)
  have k1: "stat example_host (KernelPath ?k) = Some ENOENT"
    by (simp add: example_host_simps)
  have k2: "stat example_host (KernelPath example_kernel) = None"
    by (simp add: example_host_simps example_kernel_def)
  have d2: "stat example_host ''/img/missing.img'' = Some ENOENT"
    by (simp add: example_host_simps)
  have ok: "snd (NewQemuSystem example_host X86_64 example_kernel ''/img/rootfs.img'') = None"
    by (simp add: NewQemuSystem_def exec_LookPath_def os_Stat_def Let_def example_host_simps
        X86_64_def example_kernel_def)
  note A = NewQemuSystem_validation [of example_host ?k X86_64 "''/img/rootfs.img''"]
  note B = NewQemuSystem_validation [of example_host example_kernel X86_64 "''/img/missing.img''"]
  note C = NewQemuSystem_validation [of example_host example_kernel X86_64 "''/img/rootfs.img''"]
  have k1': "stat example_host (KernelPath ?k) \<noteq> None"
    using k1 by simp
  have d2': "stat example_host ''/img/missing.img'' \<noteq> None"
    using d2 by simp
  from A [THEN conjunct1] k1'
  have 01: "snd (NewQemuSystem example_host X86_64 ?k ''/img/rootfs.img'') \<noteq> None"
    by (rule mp)
  from B [THEN conjunct2, THEN conjunct1] d2'
  have 02: "snd (NewQemuSystem example_host X86_64 example_kernel ''/img/missing.img'') \<noteq> None"
    by (rule mp)
  have 1: "snd (NewQemuSystem example_host X86_64 ?k ''/img/rootfs.img'')
      = Some (PathError ''stat'' (KernelPath ?k) ENOENT)"
    using A [THEN conjunct2, THEN conjunct2, THEN conjunct1] bin k1 by (rule mp [OF _ conjI])
  have 2: "snd (NewQemuSystem example_host X86_64 example_kernel ''/img/missing.img'')
      = Some (PathError ''stat'' ''/img/missing.img'' ENOENT)"
    using B [THEN conjunct2, THEN conjunct2, THEN conjunct2, THEN conjunct1] bin k2 d2 by simp
  have 3: "\<exists>q. fst (NewQemuSystem example_host X86_64 example_kernel ''/img/rootfs.img'') = Some q
       \<and> Cpus q = 1 \<and> Memory q = 512"
    using C [THEN conjunct2, THEN conjunct2, THEN conjunct2, THEN conjunct2] ok by (rule mp)
  from 01 02 1 2 3 show ?thesis by simp
qed

text \<open>
  Claim C9. The supervisor pointer is nil exactly when the lookup of the emulator
  binary fails. When the binary is found and the check of the kernel path fails, the
  constructor returns the error together with a supervisor that holds only the
  architecture; when the check of the disk path fails, one that holds only the
  architecture and the kernel. Every supervisor returned with an error has no disk
  path, 0 CPUs and 0 megabytes of memory.
\<close>

theorem NewQemuSystem_nil_only_on_lookup_failure:
  "(fst (NewQemuSystem h a k d) = None \<longleftrightarrow> \<not> lookPath h (''qemu-system-'' @ a)) \<and>
   (lookPath h (''qemu-system-'' @ a) \<and> stat h (KernelPath k) = Some e \<longrightarrow>
      NewQemuSystem h a k d =
        (Some (zero_QemuSystem\<lparr>arch := a\<rparr>), Some (PathError ''stat'' (KernelPath k) e))) \<and>
   (lookPath h (''qemu-system-'' @ a) \<and> stat h (KernelPath k) = None \<and> stat h d = Some e \<longrightarrow>
      NewQemuSystem h a k d =
        (Some (zero_QemuSystem\<lparr>arch := a, kernel := k\<rparr>), Some (PathError ''stat'' d e))) \<and>
   (\<forall>q. fst (NewQemuSystem h a k d) = Some q \<and> snd (NewQemuSystem h a k d) \<noteq> None \<longrightarrow>
      drivePath q = [] \<and> Cpus q = 0 \<and> Memory q = 0)"
  by (auto simp: NewQemuSystem_def exec_LookPath_def os_Stat_def Let_def zero_QemuSystem_def
      split: option.splits)

theorem NewQemuSystem_nil_only_on_lookup_failure_witness:
  "NewQemuSystem example_host X86_64 (example_kernel\<lparr>KernelPath := ''/boot/missing''\<rparr>)
      ''/img/rootfs.img''
     = (Some (zero_QemuSystem\<lparr>arch := X86_64\<rparr>),
        Some (PathError ''stat'' ''/boot/missing'' ENOENT)) \<and>
   NewQemuSystem example_host X86_64 example_kernel ''/img/missing.img''
     = (Some (zero_QemuSystem\<lparr>arch := X86_64, kernel := example_kernel\<rparr>),
        Some (PathError ''stat'' ''/img/missing.img'' ENOENT)) \<and>
   drivePath (zero_QemuSystem\<lparr>arch := X86_64, kernel := example_kernel\<rparr>) = [] \<and>
   Cpus (zero_QemuSystem\<lparr>arch := X86_64, kernel := example_kernel\<rparr>) = 0 \<and>
   Memory (zero_QemuSystem\<lparr>arch := X86_64, kernel := example_kernel\<rparr>) = 0 \<and>
   fst (NewQemuSystem example_host I386 example_kernel ''/img/rootfs.img'') = None"
proof -
  let ?k = "example_kernel\<lparr>KernelPath := ''/boot/missing''\<rparr>"
  let ?q = "zero_QemuSystem\<lparr>arch := X86_64, kernel := example_kernel\<rparr>"
  have bin: "lookPath example_host (''qemu-system-'' @ X86_64)"
    by (simp add: example_host_simps X86_64_def)
  have nobin: "\<not> lookPath example_host (''qemu-system-'' @ I386)"
    by (simp add: example_host_simps I386_def)
  have k1: "stat example_host (KernelPath ?k) = Some ENOENT"
    by (simp add: example_host_simps)
  have k2: "stat example_host (KernelPath example_kernel) = None"
    by (simp add: example_host_simps example_kernel_def)
  have d2: "stat example_host ''/img/missing.img'' = Some ENOENT"
    by (simp add: example_host_simps)
  note A = NewQemuSystem_nil_only_on_lookup_failure
             [of example_host X86_64 ?k "''/img/rootfs.img''" ENOENT]
  note B = NewQemuSystem_nil_only_on_lookup_failure
             [of example_host X86_64 example_kernel "''/img/missing.img''" ENOENT]
  note C = NewQemuSystem_nil_only_on_lookup_failure
             [of example_host I386 example_kernel "''/img/rootfs.img''" ENOENT]
  have 1: "NewQemuSystem example_host X86_64 ?k ''/img/rootfs.img''
      = (Some (zero_QemuSystem\<lparr>arch := X86_64\<rparr>), Some (PathError ''stat'' (KernelPath ?k) ENOENT))"
    using A [THEN conjunct2, THEN conjunct1] bin k1 by simp
  have 2: "NewQemuSystem example_host X86_64 example_kernel ''/img/missing.img''
      = (Some ?q, Some (PathError ''stat'' ''/img/missing.img'' ENOENT))"
    using B [THEN conjunct2, THEN conjunct2, THEN conjunct1] bin k2 d2 by simp
  have 3: "drivePath ?q = [] \<and> Cpus ?q = 0 \<and> Memory ?q = 0"
    using B [THEN conjunct2, THEN conjunct2, THEN conjunct2] 2 by simp
  have 4: "fst (NewQemuSystem example_host I386 example_kernel ''/img/rootfs.img'') = None"
    using C [THEN conjunct1] nobin by simp
  from 1 2 3 4 show ?thesis by simp
qed

subsection \<open>Strings\<close>


lemma itoa_int: "itoa (int n) = utoa n"
  by (simp add: itoa_def)




subsection \<open>The port allocator\<close>

lemma rand_Int_simps:
  "fst (rand_Int h w) = randInt h (seed w) (tick w)"
  "snd (rand_Int h w) = w\<lparr>tick := Suc (tick w)\<rparr>"
  by (simp_all add: rand_Int_def)

lemma getRandomAddrPort_eq:
  "getRandomAddrPort h w =
     (''127.'' @ utoa (randInt h (seed w) (tick w) mod 254 + 1)
        @ ''.'' @ utoa (randInt h (seed w) (Suc (tick w)) mod 255)
        @ ''.'' @ utoa (randInt h (seed w) (Suc (Suc (tick w))) mod 254)
        @ '':'' @ utoa (randInt h (seed w) (Suc (Suc (Suc (tick w)))) mod 40000 + 10000),
      w\<lparr>tick := Suc (Suc (Suc (Suc (tick w))))\<rparr>)"
  by (simp add: getRandomAddrPort_def rand_Int_def Let_def itoa_int del: of_nat_add of_nat_Suc)

lemma getRandomPort_eq:
  "getRandomPort h ip w =
     (ip @ '':'' @ utoa (randInt h (seed w) (tick w) mod 64512 + 1024),
      w\<lparr>tick := Suc (tick w)\<rparr>)"
  by (simp add: getRandomPort_def rand_Int_def Let_def itoa_int del: of_nat_add of_nat_Suc)

lemma candidate_world:
  "snd (if GOOS h = ''linux'' then getRandomAddrPort h w else getRandomPort h ''127.0.0.1'' w)
     = w\<lparr>tick := (if GOOS h = ''linux'' then Suc (Suc (Suc (Suc (tick w)))) else Suc (tick w))\<rparr>"
  by (simp add: getRandomAddrPort_eq getRandomPort_eq)

text \<open>One turn of the loop, when the bind fails.\<close>

lemma getFreeAddrPort_loop_bind_fails:
  assumes "(a, w1) = (if GOOS h = ''linux'' then getRandomAddrPort h w
                      else getRandomPort h ''127.0.0.1'' w)"
    and "\<not> listen_ok h (tick w1) a"
  shows "getFreeAddrPort_loop h t w =
     (if t < now h (Suc (tick w1))
      then Some (Panicked (PanicString ''Can't found free address:port on localhost''),
                 w1\<lparr>trace := trace w1 @ [Listen a], tick := Suc (Suc (tick w1))\<rparr>)
      else getFreeAddrPort_loop h t
             (w1\<lparr>trace := trace w1 @ [Listen a], tick := Suc (Suc (tick w1))\<rparr>))"
  apply (subst getFreeAddrPort_loop.simps)
  apply (simp only: assms(1) [symmetric] Let_def split_conv net_Listen_def time_Now_def)
  apply (simp add: assms(2))
  done

lemma getFreeAddrPort_loop_bind_succeeds:
  assumes "(a, w1) = (if GOOS h = ''linux'' then getRandomAddrPort h w
                      else getRandomPort h ''127.0.0.1'' w)"
    and "listen_ok h (tick w1) a"
  shows "getFreeAddrPort_loop h t w =
     Some (Returned a,
           w1\<lparr>trace := trace w1 @ [Listen a, CloseListener a], tick := Suc (tick w1)\<rparr>)"
  apply (subst getFreeAddrPort_loop.simps)
  apply (simp only: assms(1) [symmetric] Let_def split_conv net_Listen_def time_Now_def)
  apply (simp add: assms(2) emit_def)
  done

text \<open>The body of the loop, for any continuation \<open>f\<close>.\<close>

lemma getFreeAddrPort_loop_body:
  assumes "(a, w1) = (if GOOS h = ''linux'' then getRandomAddrPort h w
                      else getRandomPort h ''127.0.0.1'' w)"
  shows "(let (addrPort, w1) =
            (if GOOS h = ''linux'' then getRandomAddrPort h w
             else getRandomPort h ''127.0.0.1'' w);
          (ok, w2) = net_Listen h addrPort w1
      in if ok then Some (Returned addrPort, emit (CloseListener addrPort) w2)
         else (let (t', w3) = time_Now h w2
               in if t < t'
                  then Some (Panicked (PanicString
                          ''Can't found free address:port on localhost''), w3)
                  else f h t w3))
    = (if listen_ok h (tick w1) a
       then Some (Returned a, w1\<lparr>trace := trace w1 @ [Listen a, CloseListener a],
                                 tick := Suc (tick w1)\<rparr>)
       else if t < now h (Suc (tick w1))
            then Some (Panicked (PanicString ''Can't found free address:port on localhost''),
                       w1\<lparr>trace := trace w1 @ [Listen a], tick := Suc (Suc (tick w1))\<rparr>)
            else f h t (w1\<lparr>trace := trace w1 @ [Listen a], tick := Suc (Suc (tick w1))\<rparr>))"
  unfolding assms [symmetric] Let_def split_conv net_Listen_def time_Now_def emit_def
  by simp

text \<open>What a run of the loop that ends has done.\<close>

lemma getFreeAddrPort_loop_ended:
  assumes "getFreeAddrPort_loop h t w = Some y"
  shows "sys (snd y) = sys w \<and> seed (snd y) = seed w \<and> tick w < tick (snd y) \<and>
     (\<exists>es. trace (snd y) = trace w @ es \<and>
        (\<forall>e \<in> set es.
           (\<exists>v. e = Listen (fst (if GOOS h = ''linux'' then getRandomAddrPort h v
                                  else getRandomPort h ''127.0.0.1'' v))) \<or>
           (\<exists>s. e = CloseListener s)) \<and>
        (\<forall>s. fst y = Returned s \<longrightarrow> Listen s \<in> set es)) \<and>
     (\<forall>s. fst y = Returned s \<longrightarrow> (\<exists>k. listen_ok h k s)) \<and>
     (\<forall>p. fst y = Panicked p \<longrightarrow>
        p = PanicString ''Can't found free address:port on localhost'' \<and>
        t < now h (tick (snd y) - 1))"
  using assms
proof (induction h t w y
    rule: getFreeAddrPort_loop.raw_induct [rotated 1, consumes 1, case_names step])
  case (step loop h t w y)
  let ?c = "if GOOS h = ''linux'' then getRandomAddrPort h w else getRandomPort h ''127.0.0.1'' w"
  define a where "a = fst ?c"
  define w1 where "w1 = snd ?c"
  note a = a_def and w1 = w1_def
  have c: "(a, w1) = ?c"
    unfolding a w1 by (rule prod.collapse)
  from w1 have w1s: "sys w1 = sys w" "seed w1 = seed w" "trace w1 = trace w" "tick w < tick w1"
    by (simp_all add: candidate_world)
  let ?w3 = "w1\<lparr>trace := trace w1 @ [Listen a], tick := Suc (Suc (tick w1))\<rparr>"
  let ?Q = "\<lambda>e. (\<exists>v. e = Listen (fst (if GOOS h = ''linux'' then getRandomAddrPort h v
                                  else getRandomPort h ''127.0.0.1'' v))) \<or>
           (\<exists>s. e = CloseListener s)"
  have La: "?Q (Listen a)"
    unfolding a by blast
  have body: "(if listen_ok h (tick w1) a
       then Some (Returned a, w1\<lparr>trace := trace w1 @ [Listen a, CloseListener a],
                                 tick := Suc (tick w1)\<rparr>)
       else if t < now h (Suc (tick w1))
            then Some (Panicked (PanicString ''Can't found free address:port on localhost''), ?w3)
            else loop h t ?w3) = Some y"
    using step.hyps unfolding getFreeAddrPort_loop_body [OF c] .
  show ?case
  proof (cases "listen_ok h (tick w1) a")
    case True
    with body have y: "y = (Returned a, w1\<lparr>trace := trace w1 @ [Listen a, CloseListener a],
                                 tick := Suc (tick w1)\<rparr>)"
      by simp
    have "\<forall>e \<in> set [Listen a, CloseListener a]. ?Q e"
      using La by simp
    then have "\<exists>es. trace (snd y) = trace w @ es \<and> (\<forall>e \<in> set es. ?Q e) \<and>
        (\<forall>s. fst y = Returned s \<longrightarrow> Listen s \<in> set es)"
      unfolding y using w1s by (intro exI [of _ "[Listen a, CloseListener a]"]) simp
    moreover have "\<exists>k. listen_ok h k a"
      using True by blast
    ultimately show ?thesis
      using w1s by (simp add: y)
  next
    case False
    show ?thesis
    proof (cases "t < now h (Suc (tick w1))")
      case True
      with False body
      have y: "y = (Panicked (PanicString ''Can't found free address:port on localhost''), ?w3)"
        by simp
      have "\<exists>es. trace (snd y) = trace w @ es \<and> (\<forall>e \<in> set es. ?Q e) \<and>
        (\<forall>s. fst y = Returned s \<longrightarrow> Listen s \<in> set es)"
        unfolding y using w1s La by (intro exI [of _ "[Listen a]"]) simp
      then show ?thesis
        using w1s True by (simp add: y)
    next
      case late: False
      with False body have "loop h t ?w3 = Some y"
        by simp
      from step.IH [OF this]
      have ih: "sys (snd y) = sys ?w3" "seed (snd y) = seed ?w3" "tick ?w3 < tick (snd y)"
        "\<exists>es. trace (snd y) = trace ?w3 @ es \<and> (\<forall>e \<in> set es. ?Q e) \<and>
           (\<forall>s. fst y = Returned s \<longrightarrow> Listen s \<in> set es)"
        "\<forall>s. fst y = Returned s \<longrightarrow> (\<exists>k. listen_ok h k s)"
        "\<forall>p. fst y = Panicked p \<longrightarrow>
           p = PanicString ''Can't found free address:port on localhost'' \<and>
           t < now h (tick (snd y) - 1)"
        by simp_all
      from ih(4) obtain es where es: "trace (snd y) = trace ?w3 @ es" "\<forall>e \<in> set es. ?Q e"
        "\<forall>s. fst y = Returned s \<longrightarrow> Listen s \<in> set es"
        by blast
      have "trace (snd y) = trace w @ (Listen a # es)"
        using es(1) w1s by simp
      moreover have "\<forall>e \<in> set (Listen a # es). ?Q e"
        using es(2) La by simp
      moreover have "\<forall>s. fst y = Returned s \<longrightarrow> Listen s \<in> set (Listen a # es)"
        using es(3) by simp
      ultimately have "\<exists>es. trace (snd y) = trace w @ es \<and> (\<forall>e \<in> set es. ?Q e) \<and>
          (\<forall>s. fst y = Returned s \<longrightarrow> Listen s \<in> set es)"
        by blast
      moreover have "tick w < tick (snd y)"
        using ih(3) w1s by simp
      ultimately show ?thesis
        using ih(1,2,5,6) w1s by simp
    qed
  qed
qed

text \<open>When every bind fails and the clock ends up past the deadline, the loop panics.\<close>

lemma getFreeAddrPort_loop_panics:
  assumes fail: "\<forall>k a. \<not> listen_ok h k a"
    and late: "\<forall>k\<ge>K. t < now h k"
  shows "\<exists>w'. getFreeAddrPort_loop h t w
     = Some (Panicked (PanicString ''Can't found free address:port on localhost''), w')"
proof (induction "K - tick w" arbitrary: w rule: less_induct)
  case less
  let ?c = "if GOOS h = ''linux'' then getRandomAddrPort h w else getRandomPort h ''127.0.0.1'' w"
  define a where "a = fst ?c"
  define w1 where "w1 = snd ?c"
  note w1 = w1_def
  have c: "(a, w1) = ?c"
    unfolding a_def w1 by (rule prod.collapse)
  have tk: "tick w < tick w1"
    unfolding w1 by (simp add: candidate_world)
  let ?w3 = "w1\<lparr>trace := trace w1 @ [Listen a], tick := Suc (Suc (tick w1))\<rparr>"
  from fail have nb: "\<not> listen_ok h (tick w1) a"
    by blast
  note step = getFreeAddrPort_loop_bind_fails [OF c nb, of t]
  show ?case
  proof (cases "t < now h (Suc (tick w1))")
    case True
    then show ?thesis
      unfolding step by simp
  next
    case False
    with late have "Suc (tick w1) < K"
      by (metis not_le_imp_less)
    with tk have "K - tick ?w3 < K - tick w"
      by simp
    from less [OF this] False show ?thesis
      unfolding step by simp
  qed
qed

lemma getFreeAddrPort_ended:
  assumes "getFreeAddrPort h w = Some y"
  shows "sys (snd y) = sys w \<and> seed (snd y) = seed w \<and> tick w < tick (snd y) \<and>
     (\<exists>es. events_since w (snd y) = es \<and> trace (snd y) = trace w @ es \<and>
        (\<forall>e \<in> set es.
           (\<exists>v. e = Listen (fst (if GOOS h = ''linux'' then getRandomAddrPort h v
                                  else getRandomPort h ''127.0.0.1'' v))) \<or>
           (\<exists>s. e = CloseListener s)) \<and>
        (\<forall>s. fst y = Returned s \<longrightarrow> Listen s \<in> set es)) \<and>
     (\<forall>s. fst y = Returned s \<longrightarrow> (\<exists>k. listen_ok h k s)) \<and>
     (\<forall>p. fst y = Panicked p \<longrightarrow>
        p = PanicString ''Can't found free address:port on localhost'' \<and>
        now h (tick w) + Second < now h (tick (snd y) - 1))"
proof -
  let ?w1 = "w\<lparr>tick := Suc (tick w)\<rparr>"
  from assms have "getFreeAddrPort_loop h (now h (tick w) + Second) ?w1 = Some y"
    by (simp add: getFreeAddrPort_def time_Now_def)
  note e = getFreeAddrPort_loop_ended [OF this]
  from e obtain es where es: "trace (snd y) = trace ?w1 @ es"
    "\<forall>e \<in> set es.
           (\<exists>v. e = Listen (fst (if GOOS h = ''linux'' then getRandomAddrPort h v
                                  else getRandomPort h ''127.0.0.1'' v))) \<or>
           (\<exists>s. e = CloseListener s)"
    "\<forall>s. fst y = Returned s \<longrightarrow> Listen s \<in> set es"
    by blast
  from es(1) have tr: "trace (snd y) = trace w @ es"
    by simp
  then have ev: "events_since w (snd y) = es"
    by (rule events_since_trace)
  from e have rest: "sys (snd y) = sys w" "seed (snd y) = seed w" "tick w < tick (snd y)"
    "\<forall>s. fst y = Returned s \<longrightarrow> (\<exists>k. listen_ok h k s)"
    "\<forall>p. fst y = Panicked p \<longrightarrow>
        p = PanicString ''Can't found free address:port on localhost'' \<and>
        now h (tick w) + Second < now h (tick (snd y) - 1)"
    by simp_all
  from ev tr es(2,3) have "\<exists>es. events_since w (snd y) = es \<and> trace (snd y) = trace w @ es \<and>
        (\<forall>e \<in> set es.
           (\<exists>v. e = Listen (fst (if GOOS h = ''linux'' then getRandomAddrPort h v
                                  else getRandomPort h ''127.0.0.1'' v))) \<or>
           (\<exists>s. e = CloseListener s)) \<and>
        (\<forall>s. fst y = Returned s \<longrightarrow> Listen s \<in> set es)"
    by blast
  with rest show ?thesis
    by blast
qed

text \<open>
  Claim C2, as the code has it. \<open>getFreeAddrPort\<close> has no error result. When every
  bind fails it never returns: if the clock ends up later than one second after the
  start, it panics with the message \<open>Can't found free address:port on localhost\<close>,
  and the clock reading that ends the loop is already past the deadline (the check
  stands after the failed bind, so the panic follows the 1-second budget rather than
  falling within it); on a host whose clock never passes the deadline it retries for
  ever.
\<close>

theorem getFreeAddrPort_exhaustion:
  "(\<forall>k a. \<not> listen_ok h k a) \<longrightarrow>
     (\<forall>s w'. getFreeAddrPort h w \<noteq> Some (Returned s, w')) \<and>
     ((\<exists>K. \<forall>k\<ge>K. now h (tick w) + Second < now h k) \<longrightarrow>
        (\<exists>w'. getFreeAddrPort h w
            = Some (Panicked (PanicString ''Can't found free address:port on localhost''), w') \<and>
           now h (tick w) + Second < now h (tick w' - 1))) \<and>
     ((\<forall>k. now h k \<le> now h (tick w) + Second) \<longrightarrow> getFreeAddrPort h w = None)"
proof (intro impI conjI allI)
  assume fail: "\<forall>k a. \<not> listen_ok h k a"
  show "getFreeAddrPort h w \<noteq> Some (Returned s, w')" for s w'
  proof
    assume "getFreeAddrPort h w = Some (Returned s, w')"
    from getFreeAddrPort_ended [OF this] have "\<exists>k. listen_ok h k s"
      by simp
    with fail show False
      by blast
  qed
  show "\<exists>w'. getFreeAddrPort h w
            = Some (Panicked (PanicString ''Can't found free address:port on localhost''), w') \<and>
           now h (tick w) + Second < now h (tick w' - 1)"
    if "\<exists>K. \<forall>k\<ge>K. now h (tick w) + Second < now h k"
  proof -
    from that obtain K where "\<forall>k\<ge>K. now h (tick w) + Second < now h k"
      by blast
    from getFreeAddrPort_loop_panics [OF fail this, of "w\<lparr>tick := Suc (tick w)\<rparr>"]
    obtain w' where w': "getFreeAddrPort h w
        = Some (Panicked (PanicString ''Can't found free address:port on localhost''), w')"
      by (auto simp: getFreeAddrPort_def time_Now_def)
    from getFreeAddrPort_ended [OF this]
    have "now h (tick w) + Second < now h (tick w' - 1)"
      by simp
    with w' show ?thesis
      by blast
  qed
  show "getFreeAddrPort h w = None" if frozen: "\<forall>k. now h k \<le> now h (tick w) + Second"
  proof (rule ccontr)
    assume "getFreeAddrPort h w \<noteq> None"
    then obtain y where y: "getFreeAddrPort h w = Some y"
      by blast
    note e = getFreeAddrPort_ended [OF y]
    show False
    proof (cases "fst y")
      case (Returned s)
      with e have "\<exists>k. listen_ok h k s"
        by simp
      with fail show False
        by blast
    next
      case (Panicked p)
      with e have "now h (tick w) + Second < now h (tick (snd y) - 1)"
        by simp
      with frozen show False
        by (metis not_le)
    qed
  qed
qed

theorem getFreeAddrPort_exhaustion_witness:
  "(\<exists>w'. getFreeAddrPort (example_host\<lparr>listen_ok := (\<lambda>k a. False)\<rparr>) fresh
       = Some (Panicked (PanicString ''Can't found free address:port on localhost''), w') \<and>
      now (example_host\<lparr>listen_ok := (\<lambda>k a. False)\<rparr>) (tick fresh) + Second
        < now (example_host\<lparr>listen_ok := (\<lambda>k a. False)\<rparr>) (tick w' - 1)) \<and>
   getFreeAddrPort (example_host\<lparr>listen_ok := (\<lambda>k a. False), now := (\<lambda>k. 0)\<rparr>) fresh = None"
proof -
  let ?h = "example_host\<lparr>listen_ok := (\<lambda>k a. False)\<rparr>"
  let ?f = "example_host\<lparr>listen_ok := (\<lambda>k a. False), now := (\<lambda>k. 0)\<rparr>"
  have fail: "\<forall>k a. \<not> listen_ok ?h k a" "\<forall>k a. \<not> listen_ok ?f k a"
    by simp_all
  have "\<forall>k\<ge>11. now ?h (tick fresh) + Second < now ?h k"
    by (simp add: example_host_simps fresh_simps Second_def)
  then have late: "\<exists>K. \<forall>k\<ge>K. now ?h (tick fresh) + Second < now ?h k"
    by (rule exI)
  have frozen: "\<forall>k. now ?f k \<le> now ?f (tick fresh) + Second"
    by (simp add: Second_def)
  from getFreeAddrPort_exhaustion [of ?h fresh] fail(1)
  have A: "(\<forall>s w'. getFreeAddrPort ?h fresh \<noteq> Some (Returned s, w')) \<and>
     ((\<exists>K. \<forall>k\<ge>K. now ?h (tick fresh) + Second < now ?h k) \<longrightarrow>
        (\<exists>w'. getFreeAddrPort ?h fresh
            = Some (Panicked (PanicString ''Can't found free address:port on localhost''), w') \<and>
           now ?h (tick fresh) + Second < now ?h (tick w' - 1))) \<and>
     ((\<forall>k. now ?h k \<le> now ?h (tick fresh) + Second) \<longrightarrow> getFreeAddrPort ?h fresh = None)"
    by (rule mp)
  from A [THEN conjunct2, THEN conjunct1] late
  have 1: "\<exists>w'. getFreeAddrPort ?h fresh
            = Some (Panicked (PanicString ''Can't found free address:port on localhost''), w') \<and>
           now ?h (tick fresh) + Second < now ?h (tick w' - 1)"
    by (rule mp)
  from getFreeAddrPort_exhaustion [of ?f fresh] fail(2)
  have B: "(\<forall>s w'. getFreeAddrPort ?f fresh \<noteq> Some (Returned s, w')) \<and>
     ((\<exists>K. \<forall>k\<ge>K. now ?f (tick fresh) + Second < now ?f k) \<longrightarrow>
        (\<exists>w'. getFreeAddrPort ?f fresh
            = Some (Panicked (PanicString ''Can't found free address:port on localhost''), w') \<and>
           now ?f (tick fresh) + Second < now ?f (tick w' - 1))) \<and>
     ((\<forall>k. now ?f k \<le> now ?f (tick fresh) + Second) \<longrightarrow> getFreeAddrPort ?f fresh = None)"
    by (rule mp)
  from B [THEN conjunct2, THEN conjunct2] frozen
  have 2: "getFreeAddrPort ?f fresh = None"
    by (rule mp)
  from 1 2 show ?thesis
    by (rule conjI)
qed

text \<open>
  The claim as it is written fails: with every bind failing, on a host whose clock
  advances by a tenth of a second per reading, the allocator ends in a panic, not in
  the return of an error value.
\<close>

theorem getFreeAddrPort_panics_counterexample:
  "map_option fst (getFreeAddrPort (example_host\<lparr>listen_ok := (\<lambda>k a. False)\<rparr>) fresh)
     = Some (Panicked (PanicString ''Can't found free address:port on localhost''))"
proof -
  let ?h = "example_host\<lparr>listen_ok := (\<lambda>k a. False)\<rparr>"
  have fail: "\<forall>k a. \<not> listen_ok ?h k a"
    by simp
  have late: "\<forall>k\<ge>11. now ?h (tick fresh) + Second < now ?h k"
    by (simp add: example_host_simps fresh_simps Second_def)
  from getFreeAddrPort_loop_panics [OF fail late, of "fresh\<lparr>tick := Suc (tick fresh)\<rparr>"]
  obtain w' where "getFreeAddrPort ?h fresh
      = Some (Panicked (PanicString ''Can't found free address:port on localhost''), w')"
    by (auto simp: getFreeAddrPort_def time_Now_def)
  then show ?thesis
    by simp
qed

text \<open>
  Claim C7, as the code has it. A candidate of \<open>getRandomAddrPort\<close> (used on Linux)
  reads \<open>127.a.b.c:p\<close> with \<open>a\<close> in 1..254, \<open>b\<close> in 0..254, \<open>c\<close> in 0..253 and \<open>p\<close>
  in 10000..49999: it is never 127.0.0.0, no octet is 255, the port lies within
  10000..50000, and the third and the fourth octet may be 0. A candidate of
  \<open>getRandomPort\<close> on the canonical loopback address (used elsewhere) reads
  \<open>127.0.0.1:p\<close> with \<open>p\<close> in 1024..65535. Every address that a run of the allocator
  tries to bind is such a candidate, and so is the address it returns.
\<close>

theorem candidate_ranges:
  "(\<exists>a b c p. fst (getRandomAddrPort h w)
        = ''127.'' @ utoa a @ ''.'' @ utoa b @ ''.'' @ utoa c @ '':'' @ utoa p \<and>
      1 \<le> a \<and> a \<le> 254 \<and> b \<le> 254 \<and> c \<le> 253 \<and> 10000 \<le> p \<and> p \<le> 49999) \<and>
   (\<exists>p. fst (getRandomPort h ''127.0.0.1'' w) = ''127.0.0.1:'' @ utoa p \<and>
      1024 \<le> p \<and> p \<le> 65535) \<and>
   (getFreeAddrPort h w = Some (r, w') \<longrightarrow>
      (\<forall>s. Listen s \<in> set (events_since w w') \<longrightarrow>
         (\<exists>v. s = fst (if GOOS h = ''linux'' then getRandomAddrPort h v
                        else getRandomPort h ''127.0.0.1'' v))) \<and>
      (\<forall>s. r = Returned s \<longrightarrow> Listen s \<in> set (events_since w w')))"
proof (intro conjI impI)
  let ?r = "\<lambda>i. randInt h (seed w) ((Suc ^^ i) (tick w))"
  show "\<exists>a b c p. fst (getRandomAddrPort h w)
        = ''127.'' @ utoa a @ ''.'' @ utoa b @ ''.'' @ utoa c @ '':'' @ utoa p \<and>
      1 \<le> a \<and> a \<le> 254 \<and> b \<le> 254 \<and> c \<le> 253 \<and> 10000 \<le> p \<and> p \<le> 49999"
  proof (intro exI conjI)
    show "fst (getRandomAddrPort h w) = ''127.'' @ utoa (?r 0 mod 254 + 1) @ ''.''
        @ utoa (?r 1 mod 255) @ ''.'' @ utoa (?r 2 mod 254) @ '':''
        @ utoa (?r 3 mod 40000 + 10000)"
      by (simp add: getRandomAddrPort_eq numeral_3_eq_3)
    have "?r 0 mod 254 < 254" by simp
    then show "?r 0 mod 254 + 1 \<le> 254" by simp
    have "?r 1 mod 255 < 255" by simp
    then show "?r 1 mod 255 \<le> 254" by simp
    have "?r 2 mod 254 < 254" by simp
    then show "?r 2 mod 254 \<le> 253" by simp
    have "?r 3 mod 40000 < 40000" by simp
    then show "?r 3 mod 40000 + 10000 \<le> 49999" by simp
  qed simp_all
  show "\<exists>p. fst (getRandomPort h ''127.0.0.1'' w) = ''127.0.0.1:'' @ utoa p \<and>
      1024 \<le> p \<and> p \<le> 65535"
  proof (intro exI conjI)
    show "fst (getRandomPort h ''127.0.0.1'' w)
        = ''127.0.0.1:'' @ utoa (?r 0 mod 64512 + 1024)"
      by (simp add: getRandomPort_eq)
    have "?r 0 mod 64512 < 64512" by simp
    then show "?r 0 mod 64512 + 1024 \<le> 65535" by simp
  qed simp
  assume "getFreeAddrPort h w = Some (r, w')"
  from getFreeAddrPort_ended [OF this]
  have es: "\<forall>e \<in> set (events_since w w').
           (\<exists>v. e = Listen (fst (if GOOS h = ''linux'' then getRandomAddrPort h v
                                  else getRandomPort h ''127.0.0.1'' v))) \<or>
           (\<exists>s. e = CloseListener s)"
    and ret: "\<forall>s. r = Returned s \<longrightarrow> Listen s \<in> set (events_since w w')"
    by simp_all
  show "\<forall>s. Listen s \<in> set (events_since w w') \<longrightarrow>
         (\<exists>v. s = fst (if GOOS h = ''linux'' then getRandomAddrPort h v
                        else getRandomPort h ''127.0.0.1'' v))"
  proof (intro allI impI)
    fix s
    assume "Listen s \<in> set (events_since w w')"
    with es have "(\<exists>v. Listen s = Listen (fst (if GOOS h = ''linux'' then getRandomAddrPort h v
                                  else getRandomPort h ''127.0.0.1'' v))) \<or>
           (\<exists>s'. Listen s = CloseListener s')"
      by (rule bspec)
    then show "\<exists>v. s = fst (if GOOS h = ''linux'' then getRandomAddrPort h v
                        else getRandomPort h ''127.0.0.1'' v)"
      by simp
  qed
  from ret show "\<forall>s. r = Returned s \<longrightarrow> Listen s \<in> set (events_since w w')" .
qed

lemma utoa_examples:
  "utoa 7 = ''7''" "utoa 8 = ''8''" "utoa 10007 = ''10007''"
  by (simp_all add: utoa.simps)

lemma getFreeAddrPort_example:
  "getFreeAddrPort example_host fresh =
     Some (Returned ''127.8.7.7:10007'',
           fresh\<lparr>trace := [Listen ''127.8.7.7:10007'', CloseListener ''127.8.7.7:10007''],
                 tick := 6\<rparr>)"
proof -
  let ?w = "fresh\<lparr>tick := Suc (tick fresh)\<rparr>"
  have c: "(''127.8.7.7:10007'', fresh\<lparr>tick := 5\<rparr>)
      = (if GOOS example_host = ''linux'' then getRandomAddrPort example_host ?w
         else getRandomPort example_host ''127.0.0.1'' ?w)"
    by (simp add: getRandomAddrPort_eq example_host_simps fresh_simps utoa_examples)
  have ok: "listen_ok example_host (tick (fresh\<lparr>tick := 5\<rparr>)) ''127.8.7.7:10007''"
    by (simp add: example_host_simps)
  show ?thesis
    unfolding getFreeAddrPort_def time_Now_def Let_def split_conv
      getFreeAddrPort_loop_bind_succeeds [OF c ok]
    by (simp add: fresh_simps)
qed

theorem candidate_ranges_witness:
  "getFreeAddrPort example_host fresh =
     Some (Returned ''127.8.7.7:10007'',
           fresh\<lparr>trace := [Listen ''127.8.7.7:10007'', CloseListener ''127.8.7.7:10007''],
                 tick := 6\<rparr>) \<and>
   Listen ''127.8.7.7:10007'' \<in> set (events_since fresh
      (fresh\<lparr>trace := [Listen ''127.8.7.7:10007'', CloseListener ''127.8.7.7:10007''],
             tick := 6\<rparr>)) \<and>
   (\<exists>v. ''127.8.7.7:10007'' = fst (if GOOS example_host = ''linux''
              then getRandomAddrPort example_host v
              else getRandomPort example_host ''127.0.0.1'' v))"
proof -
  let ?w' = "fresh\<lparr>trace := [Listen ''127.8.7.7:10007'', CloseListener ''127.8.7.7:10007''],
                 tick := 6\<rparr>"
  note run = getFreeAddrPort_example
  note T = candidate_ranges [of example_host fresh "Returned ''127.8.7.7:10007''" ?w',
      THEN conjunct2, THEN conjunct2]
  from T run
  have A: "(\<forall>s. Listen s \<in> set (events_since fresh ?w') \<longrightarrow>
         (\<exists>v. s = fst (if GOOS example_host = ''linux'' then getRandomAddrPort example_host v
                        else getRandomPort example_host ''127.0.0.1'' v))) \<and>
      (\<forall>s. Returned ''127.8.7.7:10007'' = Returned s \<longrightarrow>
         Listen s \<in> set (events_since fresh ?w'))"
    by (rule mp)
  from A [THEN conjunct2] have 1: "Listen ''127.8.7.7:10007'' \<in> set (events_since fresh ?w')"
    by blast
  from A [THEN conjunct1] 1
  have 2: "\<exists>v. ''127.8.7.7:10007'' = fst (if GOOS example_host = ''linux''
              then getRandomAddrPort example_host v
              else getRandomPort example_host ''127.0.0.1'' v)"
    by blast
  from run 1 2 show ?thesis
    by (intro conjI)
qed

text \<open>
  The claim as it is written says that the octets exclude 0. They do not: only the
  second octet has 1 added to it, so on a random source that yields 0 the candidate is
  127.1.0.0, with a third and a fourth octet of 0.
\<close>

theorem candidate_zero_octets_counterexample:
  "fst (getRandomAddrPort (example_host\<lparr>randInt := (\<lambda>s k. 0)\<rparr>) fresh) = ''127.1.0.0:10000''"
proof -
  have u: "utoa 0 = ''0''" "utoa (Suc 0) = ''1''" "utoa 10000 = ''10000''"
    by (simp_all add: utoa.simps)
  show ?thesis
    by (simp add: getRandomAddrPort_eq u)
qed

subsection \<open>Launch arguments\<close>




subsection \<open>Access over ssh\<close>

lemma strings_Split_empty: "strings_Split [] '':'' = [[]]"
  by (simp add: strings_Split_def)

text \<open>
  Claim C10. A supervisor returned by the constructor has an empty address:port, and
  on a supervisor whose address:port is empty both \<open>GetSshCommand\<close> and \<open>CopyFile\<close>
  panic with index 1 out of range for a slice of length 1: \<open>strings.Split\<close> of the
  empty string is one empty piece. Neither returns an error.
\<close>

theorem ssh_before_Start_panics:
  "(NewQemuSystem h a k d = (Some q, e) \<longrightarrow> sshAddrPort q = []) \<and>
   (sshAddrPort q = [] \<longrightarrow>
      GetSshCommand q = Panicked (IndexOutOfRange 1 1) \<and>
      CopyFile h q user localPath remotePath = Panicked (IndexOutOfRange 1 1))"
  by (auto simp: NewQemuSystem_def Let_def zero_QemuSystem_def GetSshCommand_def CopyFile_def
      index_def strings_Split_empty split: option.splits)

theorem ssh_before_Start_panics_witness:
  "NewQemuSystem example_host X86_64 example_kernel ''/img/rootfs.img'' = (Some example_sys, None) \<and>
   sshAddrPort example_sys = [] \<and>
   GetSshCommand example_sys = Panicked (IndexOutOfRange 1 1) \<and>
   CopyFile example_host example_sys ''root'' ''exploit'' ''/tmp/exploit''
     = Panicked (IndexOutOfRange 1 1)"
proof -
  note A = ssh_before_Start_panics [of example_host X86_64 example_kernel "''/img/rootfs.img''"
      example_sys None "''root''" "''exploit''" "''/tmp/exploit''"]
  have new: "NewQemuSystem example_host X86_64 example_kernel ''/img/rootfs.img''
      = (Some example_sys, None)"
    by (simp add: NewQemuSystem_def exec_LookPath_def os_Stat_def Let_def example_host_simps
        X86_64_def example_kernel_def example_sys_def)
  from A [THEN conjunct1] new have empty: "sshAddrPort example_sys = []"
    by (rule mp)
  from A [THEN conjunct2] empty
  have "GetSshCommand example_sys = Panicked (IndexOutOfRange 1 1) \<and>
     CopyFile example_host example_sys ''root'' ''exploit'' ''/tmp/exploit''
       = Panicked (IndexOutOfRange 1 1)"
    by (rule mp)
  with new empty show ?thesis by simp
qed

subsection \<open>Start\<close>

text \<open>What \<open>Start\<close> does once the allocator has returned or panicked.\<close>

lemma Start_after_allocation:
  assumes g: "getFreeAddrPort h (rand_Seed (now h (tick w)) (w\<lparr>tick := Suc (tick w)\<rparr>))
      = Some (x, w3)"
    and S: "Start h w = Some (r, w')"
  shows "((\<exists>a. x = Returned a) \<and> pipeErr h 0 = None \<and> pipeErr h 1 = None \<and>
          pipeErr h 2 = None \<and> startErr h = None \<longrightarrow>
            (\<exists>p a. trace w' = trace w3 @
               [StartProcess p a, Go ReadStdout, Go ReadStderr, Go WaitProcess,
                Sleep (Second div 10), Go PanicWatcher] @
               (if Timeout (sys w3) \<noteq> 0 then [Go TimeoutEnforcer] else [])) \<and>
            r = Returned (if Died (sys w')
                          then Some (ErrorString (''qemu died immediately: '' @ Stderr (sys w')))
                          else None) \<and>
            Timeout (sys w') = Timeout (sys w3) \<and>
            tick w' = Suc (tick w3) \<and>
            Died (sys w') = (Died (sys w3) \<or> exited (sched h (tick w3))) \<and>
            Stderr (sys w') = Stderr (sys w3) @ err_bytes (sched h (tick w3))) \<and>
         (\<not> ((\<exists>a. x = Returned a) \<and> pipeErr h 0 = None \<and> pipeErr h 1 = None \<and>
          pipeErr h 2 = None \<and> startErr h = None) \<longrightarrow> trace w' = trace w3)"
proof (cases x)
  case (Panicked p)
  with g S show ?thesis
    by (simp add: Start_def time_Now_def)
next
  case (Returned a)
  show ?thesis
  proof (cases "pipeErr h 0 = None \<and> pipeErr h 1 = None \<and> pipeErr h 2 = None \<and>
      startErr h = None")
    case True
    with g S Returned show ?thesis
      by (auto simp: Start_def time_Now_def Let_def emit_def time_Sleep_def background_simps)
  next
    case False
    with g S Returned show ?thesis
      by (auto simp: Start_def time_Now_def Let_def split: option.splits)
  qed
qed

text \<open>
  What a call of \<open>Start\<close> that ends has added to the trace: the allocator's binds,
  and then either nothing more, or the start of the child process with everything
  that follows it.
\<close>

lemma Start_effect:
  assumes S: "Start h w = Some (r, w')"
  shows "\<exists>es. (\<forall>e \<in> set es. (\<exists>s. e = Listen s) \<or> (\<exists>s. e = CloseListener s)) \<and>
     (events_since w w' = es \<or>
      (\<exists>p a. events_since w w' = es @
           [StartProcess p a, Go ReadStdout, Go ReadStderr, Go WaitProcess,
            Sleep (Second div 10), Go PanicWatcher] @
           (if Timeout (sys w) \<noteq> 0 then [Go TimeoutEnforcer] else [])) \<and>
      r = Returned (if Died (sys w')
                    then Some (ErrorString (''qemu died immediately: '' @ Stderr (sys w')))
                    else None) \<and>
      Died (sys w') = (Died (sys w) \<or> exited (sched h (tick w' - 1))) \<and>
      Stderr (sys w') = Stderr (sys w) @ err_bytes (sched h (tick w' - 1)))"
proof -
  let ?w2 = "rand_Seed (now h (tick w)) (w\<lparr>tick := Suc (tick w)\<rparr>)"
  let ?spawn = "[Go ReadStdout, Go ReadStderr, Go WaitProcess,
            Sleep (Second div 10), Go PanicWatcher] @
           (if Timeout (sys w) \<noteq> 0 then [Go TimeoutEnforcer] else [])"
  have w2: "trace ?w2 = trace w" "sys ?w2 = sys w"
    by (simp_all add: rand_Seed_def)
  from S obtain y where gy: "getFreeAddrPort h ?w2 = Some y"
    by (cases "getFreeAddrPort h ?w2") (simp_all add: Start_def time_Now_def)
  obtain x w3 where y: "y = (x, w3)"
    by (cases y)
  from gy y have g: "getFreeAddrPort h ?w2 = Some (x, w3)"
    by simp
  from getFreeAddrPort_ended [OF g]
  obtain es where es: "trace w3 = trace ?w2 @ es" "sys w3 = sys ?w2"
    "\<forall>e \<in> set es.
       (\<exists>v. e = Listen (fst (if GOOS h = ''linux'' then getRandomAddrPort h v
                              else getRandomPort h ''127.0.0.1'' v))) \<or>
       (\<exists>s. e = CloseListener s)"
    by auto
  from es(3) have lc: "\<forall>e \<in> set es. (\<exists>s. e = Listen s) \<or> (\<exists>s. e = CloseListener s)"
    by blast
  note A = Start_after_allocation [OF g S]
  show ?thesis
  proof (cases "(\<exists>a. x = Returned a) \<and> pipeErr h 0 = None \<and> pipeErr h 1 = None \<and>
          pipeErr h 2 = None \<and> startErr h = None")
    case True
    with A obtain p a where tr: "trace w' = trace w3 @ StartProcess p a # ?spawn"
      and r: "r = Returned (if Died (sys w')
                    then Some (ErrorString (''qemu died immediately: '' @ Stderr (sys w')))
                    else None)"
      and d: "Died (sys w') = (Died (sys w) \<or> exited (sched h (tick w' - 1)))"
        "Stderr (sys w') = Stderr (sys w) @ err_bytes (sched h (tick w' - 1))"
      using es(2) w2(2) by auto
    from tr es(1) w2(1) have "trace w' = trace w @ (es @ StartProcess p a # ?spawn)"
      by simp
    then have "events_since w w' = es @ StartProcess p a # ?spawn"
      by (rule events_since_trace)
    with lc r d show ?thesis
      by (intro exI [of _ es]) auto
  next
    case False
    with A have "trace w' = trace w3"
      by blast
    with es(1) w2(1) have "trace w' = trace w @ es"
      by simp
    then have "events_since w w' = es"
      by (rule events_since_trace)
    with lc show ?thesis
      by blast
  qed
qed

text \<open>The same, for a call that started the child process.\<close>

lemma Start_started:
  assumes S: "Start h w = Some (r, w')"
    and sp: "StartProcess p a \<in> set (events_since w w')"
  shows "\<exists>es p' a'.
      (\<forall>e \<in> set es. (\<exists>s. e = Listen s) \<or> (\<exists>s. e = CloseListener s)) \<and>
      events_since w w' = es @
           [StartProcess p' a', Go ReadStdout, Go ReadStderr, Go WaitProcess,
            Sleep (Second div 10), Go PanicWatcher] @
           (if Timeout (sys w) \<noteq> 0 then [Go TimeoutEnforcer] else [])"
    and "r = Returned (if Died (sys w')
                    then Some (ErrorString (''qemu died immediately: '' @ Stderr (sys w')))
                    else None)"
    and "Died (sys w') = (Died (sys w) \<or> exited (sched h (tick w' - 1)))"
    and "Stderr (sys w') = Stderr (sys w) @ err_bytes (sched h (tick w' - 1))"
proof -
  from Start_effect [OF S]
  obtain es where lc: "\<forall>e \<in> set es. (\<exists>s. e = Listen s) \<or> (\<exists>s. e = CloseListener s)"
    and alt: "events_since w w' = es \<or>
      (\<exists>p a. events_since w w' = es @
           [StartProcess p a, Go ReadStdout, Go ReadStderr, Go WaitProcess,
            Sleep (Second div 10), Go PanicWatcher] @
           (if Timeout (sys w) \<noteq> 0 then [Go TimeoutEnforcer] else [])) \<and>
      r = Returned (if Died (sys w')
                    then Some (ErrorString (''qemu died immediately: '' @ Stderr (sys w')))
                    else None) \<and>
      Died (sys w') = (Died (sys w) \<or> exited (sched h (tick w' - 1))) \<and>
      Stderr (sys w') = Stderr (sys w) @ err_bytes (sched h (tick w' - 1))"
    by blast
  from lc have "StartProcess p a \<notin> set es"
    by auto
  with sp have "events_since w w' \<noteq> es"
    by auto
  with alt obtain p' a' where ev: "events_since w w' = es @
           [StartProcess p' a', Go ReadStdout, Go ReadStderr, Go WaitProcess,
            Sleep (Second div 10), Go PanicWatcher] @
           (if Timeout (sys w) \<noteq> 0 then [Go TimeoutEnforcer] else [])"
    and rest: "r = Returned (if Died (sys w')
                    then Some (ErrorString (''qemu died immediately: '' @ Stderr (sys w')))
                    else None)"
      "Died (sys w') = (Died (sys w) \<or> exited (sched h (tick w' - 1)))"
      "Stderr (sys w') = Stderr (sys w) @ err_bytes (sched h (tick w' - 1))"
    by blast
  from lc ev show "\<exists>es p' a'.
      (\<forall>e \<in> set es. (\<exists>s. e = Listen s) \<or> (\<exists>s. e = CloseListener s)) \<and>
      events_since w w' = es @
           [StartProcess p' a', Go ReadStdout, Go ReadStderr, Go WaitProcess,
            Sleep (Second div 10), Go PanicWatcher] @
           (if Timeout (sys w) \<noteq> 0 then [Go TimeoutEnforcer] else [])"
    by blast
  from rest show "r = Returned (if Died (sys w')
                    then Some (ErrorString (''qemu died immediately: '' @ Stderr (sys w')))
                    else None)"
    and "Died (sys w') = (Died (sys w) \<or> exited (sched h (tick w' - 1)))"
    and "Stderr (sys w') = Stderr (sys w) @ err_bytes (sched h (tick w' - 1))"
    by blast+
qed

text \<open>No goroutine is launched by a call that did not start the child process.\<close>

lemma Start_go_started:
  assumes S: "Start h w = Some (r, w')"
    and go: "Go g \<in> set (events_since w w')"
  shows "\<exists>p a. StartProcess p a \<in> set (events_since w w')"
proof -
  from Start_effect [OF S]
  obtain es where lc: "\<forall>e \<in> set es. (\<exists>s. e = Listen s) \<or> (\<exists>s. e = CloseListener s)"
    and alt: "events_since w w' = es \<or>
      (\<exists>p a. events_since w w' = es @
           [StartProcess p a, Go ReadStdout, Go ReadStderr, Go WaitProcess,
            Sleep (Second div 10), Go PanicWatcher] @
           (if Timeout (sys w) \<noteq> 0 then [Go TimeoutEnforcer] else []))"
    by blast
  from lc have "Go g \<notin> set es"
    by auto
  with go have "events_since w w' \<noteq> es"
    by auto
  with alt obtain p a where "events_since w w' = es @
           [StartProcess p a, Go ReadStdout, Go ReadStderr, Go WaitProcess,
            Sleep (Second div 10), Go PanicWatcher] @
           (if Timeout (sys w) \<noteq> 0 then [Go TimeoutEnforcer] else [])"
    by blast
  then have "StartProcess p a \<in> set (events_since w w')"
    by simp
  then show ?thesis
    by blast
qed

text \<open>On a host where the pipes open and the process starts, \<open>Start\<close> gets that far.\<close>

lemma Start_spawns_aux:
  assumes g: "getFreeAddrPort h (rand_Seed (now h (tick w)) (w\<lparr>tick := Suc (tick w)\<rparr>))
      = Some (Returned a, w3)"
    and ok: "pipeErr h 0 = None" "pipeErr h 1 = None" "pipeErr h 2 = None" "startErr h = None"
  shows "\<exists>r w'. Start h w = Some (r, w') \<and>
     (\<exists>p a es. trace w' = trace w3 @ StartProcess p a # es) \<and>
     Died (sys w') = (Died (sys w3) \<or> exited (sched h (tick w3))) \<and>
     Stderr (sys w') = Stderr (sys w3) @ err_bytes (sched h (tick w3)) \<and>
     sshAddrPort (sys w') = a \<and> pipe_stdin (sys w')"
  using g ok
  by (simp add: Start_def time_Now_def Let_def emit_def time_Sleep_def background_simps)

lemma Start_spawns:
  assumes g: "getFreeAddrPort h (rand_Seed (now h (tick w)) (w\<lparr>tick := Suc (tick w)\<rparr>))
      = Some (Returned a, w3)"
    and ok: "pipeErr h 0 = None" "pipeErr h 1 = None" "pipeErr h 2 = None" "startErr h = None"
  shows "\<exists>r w'. Start h w = Some (r, w') \<and>
     (\<exists>p a. StartProcess p a \<in> set (events_since w w')) \<and>
     Died (sys w') = (Died (sys w) \<or> exited (sched h (tick w3))) \<and>
     Stderr (sys w') = Stderr (sys w) @ err_bytes (sched h (tick w3)) \<and>
     sshAddrPort (sys w') = a \<and> pipe_stdin (sys w')"
proof -
  let ?w2 = "rand_Seed (now h (tick w)) (w\<lparr>tick := Suc (tick w)\<rparr>)"
  have w2: "trace ?w2 = trace w" "sys ?w2 = sys w"
    by (simp_all add: rand_Seed_def)
  from getFreeAddrPort_ended [OF g] w2
  obtain es where es: "trace w3 = trace w @ es" "sys w3 = sys w"
    by auto
  from Start_spawns_aux [OF g ok]
  obtain r w' p b fs where st: "Start h w = Some (r, w')"
    and tr: "trace w' = trace w3 @ StartProcess p b # fs"
    and rest: "Died (sys w') = (Died (sys w3) \<or> exited (sched h (tick w3)))"
      "Stderr (sys w') = Stderr (sys w3) @ err_bytes (sched h (tick w3))"
      "sshAddrPort (sys w') = a" "pipe_stdin (sys w')"
    by blast
  from tr es(1) have "trace w' = trace w @ (es @ StartProcess p b # fs)"
    by simp
  then have "events_since w w' = es @ StartProcess p b # fs"
    by (rule events_since_trace)
  then have "StartProcess p b \<in> set (events_since w w')"
    by simp
  with st rest es(2) show ?thesis
    by auto
qed

lemma getFreeAddrPort_first_bind_succeeds:
  assumes "\<forall>k s. listen_ok h k s"
  shows "\<exists>a w'. getFreeAddrPort h w = Some (Returned a, w') \<and> sys w' = sys w \<and>
     (\<exists>es. trace w' = trace w @ es) \<and>
     tick w' = Suc (Suc (if GOOS h = ''linux'' then Suc (Suc (Suc (Suc (tick w))))
                         else Suc (tick w)))"
proof -
  let ?w = "w\<lparr>tick := Suc (tick w)\<rparr>"
  let ?c = "if GOOS h = ''linux'' then getRandomAddrPort h ?w
            else getRandomPort h ''127.0.0.1'' ?w"
  have c: "(fst ?c, snd ?c) = ?c"
    by (rule prod.collapse)
  from assms have ok: "listen_ok h (tick (snd ?c)) (fst ?c)"
    by blast
  show ?thesis
    unfolding getFreeAddrPort_def time_Now_def Let_def split_conv
      getFreeAddrPort_loop_bind_succeeds [OF c ok]
    by (simp add: candidate_world)
qed

text \<open>
  Claim C5. Take a call of \<open>Start\<close> that started the child process. \<open>Died\<close> at its
  return is what the call read after the grace interval of a tenth of a second, its
  last sleep: unless it was set before, it is set exactly when the liveness monitor
  recorded the exit of the child during that sleep; and \<open>Stderr\<close> holds the bytes of
  stderr captured until then. If \<open>Died\<close> is set, \<open>Start\<close> returns the error
  \<open>qemu died immediately: \<close> followed by the captured stderr; if not, it returns no
  error. Either way the panic watcher has been launched, and so has the timeout
  enforcer when the timeout is not zero.
\<close>

theorem Start_immediate_death:
  "Start h w = Some (r, w') \<and> (\<exists>p a. StartProcess p a \<in> set (events_since w w')) \<longrightarrow>
     Sleep (Second div 10) \<in> set (events_since w w') \<and>
     Died (sys w') = (Died (sys w) \<or> exited (sched h (tick w' - 1))) \<and>
     Stderr (sys w') = Stderr (sys w) @ err_bytes (sched h (tick w' - 1)) \<and>
     (Died (sys w') \<longrightarrow>
        r = Returned (Some (ErrorString (''qemu died immediately: '' @ Stderr (sys w'))))) \<and>
     (\<not> Died (sys w') \<longrightarrow> r = Returned None) \<and>
     Go PanicWatcher \<in> set (events_since w w') \<and>
     (Timeout (sys w) \<noteq> 0 \<longrightarrow> Go TimeoutEnforcer \<in> set (events_since w w'))"
proof
  assume H: "Start h w = Some (r, w') \<and> (\<exists>p a. StartProcess p a \<in> set (events_since w w'))"
  then obtain p a where S: "Start h w = Some (r, w')"
    and sp: "StartProcess p a \<in> set (events_since w w')"
    by blast
  note st = Start_started [OF S sp]
  from st(1) obtain es p' a' where ev: "events_since w w' = es @
           [StartProcess p' a', Go ReadStdout, Go ReadStderr, Go WaitProcess,
            Sleep (Second div 10), Go PanicWatcher] @
           (if Timeout (sys w) \<noteq> 0 then [Go TimeoutEnforcer] else [])"
    by blast
  have "Sleep (Second div 10) \<in> set (events_since w w')"
    "Go PanicWatcher \<in> set (events_since w w')"
    "Timeout (sys w) \<noteq> 0 \<longrightarrow> Go TimeoutEnforcer \<in> set (events_since w w')"
    unfolding ev by simp_all
  moreover have "Died (sys w') \<longrightarrow>
        r = Returned (Some (ErrorString (''qemu died immediately: '' @ Stderr (sys w'))))"
    "\<not> Died (sys w') \<longrightarrow> r = Returned None"
    using st(2) by simp_all
  ultimately show "Sleep (Second div 10) \<in> set (events_since w w') \<and>
     Died (sys w') = (Died (sys w) \<or> exited (sched h (tick w' - 1))) \<and>
     Stderr (sys w') = Stderr (sys w) @ err_bytes (sched h (tick w' - 1)) \<and>
     (Died (sys w') \<longrightarrow>
        r = Returned (Some (ErrorString (''qemu died immediately: '' @ Stderr (sys w'))))) \<and>
     (\<not> Died (sys w') \<longrightarrow> r = Returned None) \<and>
     Go PanicWatcher \<in> set (events_since w w') \<and>
     (Timeout (sys w) \<noteq> 0 \<longrightarrow> Go TimeoutEnforcer \<in> set (events_since w w'))"
    using st(3,4) by (intro conjI)
qed

theorem Start_immediate_death_witness:
  "(\<exists>w'. Start (example_host\<lparr>sched := (\<lambda>k. \<lparr>out_bytes = [], err_bytes = ''qemu: no disk'',
                     exited = True, wait_err = Some (ErrorString ''exit status 1'')\<rparr>)\<rparr>)
           (fresh\<lparr>sys := example_sys\<lparr>Timeout := 5 * Second\<rparr>\<rparr>)
       = Some (Returned (Some (ErrorString ''qemu died immediately: qemu: no disk'')), w') \<and>
     Go PanicWatcher \<in> set (events_since (fresh\<lparr>sys := example_sys\<lparr>Timeout := 5 * Second\<rparr>\<rparr>) w') \<and>
     Go TimeoutEnforcer \<in> set (events_since (fresh\<lparr>sys := example_sys\<lparr>Timeout := 5 * Second\<rparr>\<rparr>) w')) \<and>
   (\<exists>w'. Start example_host fresh = Some (Returned None, w') \<and>
     Go PanicWatcher \<in> set (events_since fresh w'))"
proof (rule conjI)
  let ?h = "example_host\<lparr>sched := (\<lambda>k. \<lparr>out_bytes = [], err_bytes = ''qemu: no disk'',
                     exited = True, wait_err = Some (ErrorString ''exit status 1'')\<rparr>)\<rparr>"
  let ?w = "fresh\<lparr>sys := example_sys\<lparr>Timeout := 5 * Second\<rparr>\<rparr>"
  let ?w2 = "rand_Seed (now ?h (tick ?w)) (?w\<lparr>tick := Suc (tick ?w)\<rparr>)"
  have acc: "\<forall>k s. listen_ok ?h k s"
    by (simp add: example_host_simps)
  have ok: "pipeErr ?h 0 = None" "pipeErr ?h 1 = None" "pipeErr ?h 2 = None" "startErr ?h = None"
    by (simp_all add: example_host_simps)
  from getFreeAddrPort_first_bind_succeeds [OF acc, of ?w2]
  obtain a w3 where g: "getFreeAddrPort ?h ?w2 = Some (Returned a, w3)"
    by blast
  from Start_spawns [OF g ok]
  obtain r w' where st: "Start ?h ?w = Some (r, w')"
    and sp: "\<exists>p a. StartProcess p a \<in> set (events_since ?w w')"
    by blast
  have t: "Timeout (sys ?w) \<noteq> 0"
    by (simp add: Second_def)
  from st sp have H: "Start ?h ?w = Some (r, w') \<and>
      (\<exists>p a. StartProcess p a \<in> set (events_since ?w w'))"
    by (rule conjI)
  note T = Start_immediate_death [of ?h ?w r w', THEN mp, OF H]
  from T [THEN conjunct2, THEN conjunct1]
  have died: "Died (sys w')"
    by simp
  from T [THEN conjunct2, THEN conjunct2, THEN conjunct1]
  have err: "Stderr (sys w') = ''qemu: no disk''"
    by (simp add: example_sys_def zero_QemuSystem_def fresh_simps)
  from T [THEN conjunct2, THEN conjunct2, THEN conjunct2, THEN conjunct1] died
  have "r = Returned (Some (ErrorString (''qemu died immediately: '' @ Stderr (sys w'))))"
    by (rule mp)
  with err have r: "r = Returned (Some (ErrorString ''qemu died immediately: qemu: no disk''))"
    by simp
  from T [THEN conjunct2, THEN conjunct2, THEN conjunct2, THEN conjunct2, THEN conjunct2,
      THEN conjunct1]
  have pw: "Go PanicWatcher \<in> set (events_since ?w w')" .
  from T [THEN conjunct2, THEN conjunct2, THEN conjunct2, THEN conjunct2, THEN conjunct2,
      THEN conjunct2] t
  have te: "Go TimeoutEnforcer \<in> set (events_since ?w w')"
    by (rule mp)
  from st r pw te
  show "\<exists>w'. Start ?h ?w
       = Some (Returned (Some (ErrorString ''qemu died immediately: qemu: no disk'')), w') \<and>
     Go PanicWatcher \<in> set (events_since ?w w') \<and>
     Go TimeoutEnforcer \<in> set (events_since ?w w')"
    by blast
next
  let ?h = example_host
  let ?w2 = "rand_Seed (now ?h (tick fresh)) (fresh\<lparr>tick := Suc (tick fresh)\<rparr>)"
  have acc: "\<forall>k s. listen_ok ?h k s"
    by (simp add: example_host_simps)
  have ok: "pipeErr ?h 0 = None" "pipeErr ?h 1 = None" "pipeErr ?h 2 = None" "startErr ?h = None"
    by (simp_all add: example_host_simps)
  from getFreeAddrPort_first_bind_succeeds [OF acc, of ?w2]
  obtain a w3 where g: "getFreeAddrPort ?h ?w2 = Some (Returned a, w3)"
    by blast
  from Start_spawns [OF g ok]
  obtain r w' where st: "Start ?h fresh = Some (r, w')"
    and sp: "\<exists>p a. StartProcess p a \<in> set (events_since fresh w')"
    by blast
  from st sp have H: "Start ?h fresh = Some (r, w') \<and>
      (\<exists>p a. StartProcess p a \<in> set (events_since fresh w'))"
    by (rule conjI)
  note T = Start_immediate_death [of ?h fresh r w', THEN mp, OF H]
  from T [THEN conjunct2, THEN conjunct1]
  have alive: "\<not> Died (sys w')"
    by (simp add: example_host_simps quiet_simps fresh_simps example_sys_def
        zero_QemuSystem_def)
  from T [THEN conjunct2, THEN conjunct2, THEN conjunct2, THEN conjunct2, THEN conjunct1] alive
  have r: "r = Returned None"
    by (rule mp)
  from T [THEN conjunct2, THEN conjunct2, THEN conjunct2, THEN conjunct2, THEN conjunct2,
      THEN conjunct1]
  have pw: "Go PanicWatcher \<in> set (events_since fresh w')" .
  from st r pw show "\<exists>w'. Start example_host fresh = Some (Returned None, w') \<and>
     Go PanicWatcher \<in> set (events_since fresh w')"
    by blast
qed

subsection \<open>The monitors\<close>

lemma Stop_flags:
  "KilledByTimeout (sys (snd (Stop h w))) = KilledByTimeout (sys w)"
  "KernelPanic (sys (snd (Stop h w))) = KernelPanic (sys w)"
  by (simp_all add: Stop_def Let_def emit_simps time_Sleep_simps background_simps
      split: option.splits)

lemma timeoutEnforcer_events:
  "events_since w (snd (timeoutEnforcer h w)) =
     Sleep (Timeout (sys w)) #
     (if \<not> pipe_stdin (sys w) then []
      else [WriteStdin quit_sequence, Sleep (Second div 10)] @
        (if Died (sys w) \<or> exited (sched h (tick w)) \<or> exited (sched h (Suc (tick w))) then []
         else (case cmd (sys w) of
                 None \<Rightarrow> []
               | Some c \<Rightarrow>
                   if Process c then [Signal SIGTERM, Sleep (Second div 10), Signal SIGKILL]
                   else [])))"
proof -
  let ?w2 = "(time_Sleep h (Timeout (sys w)) w)
      \<lparr>sys := (sys (time_Sleep h (Timeout (sys w)) w))\<lparr>KilledByTimeout := True\<rparr>\<rparr>"
  have "trace (snd (timeoutEnforcer h w)) = trace (snd (Stop h ?w2))"
    by (simp add: timeoutEnforcer_def Let_def)
  also have "\<dots> = trace w @ Sleep (Timeout (sys w)) #
     (if \<not> pipe_stdin (sys w) then []
      else [WriteStdin quit_sequence, Sleep (Second div 10)] @
        (if Died (sys w) \<or> exited (sched h (tick w)) \<or> exited (sched h (Suc (tick w))) then []
         else (case cmd (sys w) of
                 None \<Rightarrow> []
               | Some c \<Rightarrow>
                   if Process c then [Signal SIGTERM, Sleep (Second div 10), Signal SIGKILL]
                   else [])))"
    unfolding Stop_trace by (simp add: time_Sleep_simps background_simps)
  finally show ?thesis
    by (rule events_since_trace)
qed

text \<open>The watcher's loop, one poll at a time.\<close>

lemma panicWatcher_found:
  assumes "bytes_Contains (Stdout (sys (time_Sleep h Second w))) ''Kernel panic''"
  shows "panicWatcher h w =
     Some (case Stop h (time_Sleep h Second (time_Sleep h Second w)) of
             (Returned u, w3) \<Rightarrow> (Returned (), w3\<lparr>sys := (sys w3)\<lparr>KernelPanic := True\<rparr>\<rparr>)
           | (Panicked p, w3) \<Rightarrow> (Panicked p, w3))"
  using assms
  by (subst panicWatcher.simps) (simp add: Let_def split: prod.splits outcome.splits)

lemma panicWatcher_not_found:
  assumes "\<not> bytes_Contains (Stdout (sys (time_Sleep h Second w))) ''Kernel panic''"
  shows "panicWatcher h w = panicWatcher h (time_Sleep h Second w)"
  using assms
  by (subst panicWatcher.simps) (simp add: Let_def)

lemma panicWatcher_first_match:
  assumes "\<forall>k<n. \<not> bytes_Contains (Stdout (sys (polls h (Suc k) w))) ''Kernel panic''"
    and "bytes_Contains (Stdout (sys (polls h (Suc n) w))) ''Kernel panic''"
  shows "panicWatcher h w =
     Some (case Stop h (time_Sleep h Second (polls h (Suc n) w)) of
             (Returned u, w3) \<Rightarrow> (Returned (), w3\<lparr>sys := (sys w3)\<lparr>KernelPanic := True\<rparr>\<rparr>)
           | (Panicked p, w3) \<Rightarrow> (Panicked p, w3))"
  using assms
proof (induction n arbitrary: w)
  case 0
  then show ?case
    by (simp add: panicWatcher_found)
next
  case (Suc n)
  let ?w1 = "time_Sleep h Second w"
  from Suc.prems(1) have "\<not> bytes_Contains (Stdout (sys (polls h (Suc 0) w))) ''Kernel panic''"
    by blast
  then have nf: "\<not> bytes_Contains (Stdout (sys ?w1)) ''Kernel panic''"
    by simp
  have "\<forall>k<n. \<not> bytes_Contains (Stdout (sys (polls h (Suc k) ?w1))) ''Kernel panic''"
  proof (intro allI impI)
    fix k
    assume "k < n"
    then have "Suc k < Suc n"
      by simp
    with Suc.prems(1)
    have "\<not> bytes_Contains (Stdout (sys (polls h (Suc (Suc k)) w))) ''Kernel panic''"
      by blast
    then show "\<not> bytes_Contains (Stdout (sys (polls h (Suc k) ?w1))) ''Kernel panic''"
      by simp
  qed
  moreover from Suc.prems(2)
  have "bytes_Contains (Stdout (sys (polls h (Suc n) ?w1))) ''Kernel panic''"
    by simp
  ultimately have "panicWatcher h ?w1 =
     Some (case Stop h (time_Sleep h Second (polls h (Suc n) ?w1)) of
             (Returned u, w3) \<Rightarrow> (Returned (), w3\<lparr>sys := (sys w3)\<lparr>KernelPanic := True\<rparr>\<rparr>)
           | (Panicked p, w3) \<Rightarrow> (Panicked p, w3))"
    by (rule Suc.IH)
  then show ?case
    unfolding panicWatcher_not_found [OF nf] by simp
qed

lemma panicWatcher_ended:
  assumes "panicWatcher h w = Some y"
  shows "\<exists>n. bytes_Contains (Stdout (sys (polls h (Suc n) w))) ''Kernel panic''"
  using assms
proof (induction h w y rule: panicWatcher.raw_induct [rotated 1, consumes 1, case_names step])
  case (step watcher h w y)
  let ?w1 = "time_Sleep h Second w"
  show ?case
  proof (cases "bytes_Contains (Stdout (sys ?w1)) ''Kernel panic''")
    case True
    then have "bytes_Contains (Stdout (sys (polls h (Suc 0) w))) ''Kernel panic''"
      by simp
    then show ?thesis
      by (rule exI [of _ 0])
  next
    case False
    with step.hyps have "watcher h ?w1 = Some y"
      by (simp add: Let_def)
    from step.IH [OF this]
    obtain n where "bytes_Contains (Stdout (sys (polls h (Suc n) ?w1))) ''Kernel panic''"
      by blast
    then have "bytes_Contains (Stdout (sys (polls h (Suc (Suc n)) w))) ''Kernel panic''"
      by simp
    then show ?thesis
      by (rule exI [of _ "Suc n"])
  qed
qed

lemma polls_trace: "trace (polls h n w) = trace w @ replicate n (Sleep Second)"
  by (induction n arbitrary: w) (simp_all add: time_Sleep_simps replicate_append_same)

text \<open>
  Claim C8, as the code has it. A call of \<open>Start\<close> that started the child process
  has launched the timeout enforcer once if the timeout is not zero and not at all if
  it is zero; no call of \<open>Start\<close> launches it with a zero timeout, and none launches
  it without having started the child process. The enforcer sleeps for the configured
  duration, sets \<open>KilledByTimeout\<close> and calls \<open>Stop\<close>, and that is all: after the one
  sleep its events are those of a single call of \<open>Stop\<close>, with one write of the quit
  sequence.
\<close>

theorem timeout_enforcer_one_shot:
  "(Start h w = Some (r, w') \<and> (\<exists>p a. StartProcess p a \<in> set (events_since w w')) \<longrightarrow>
      count_list (events_since w w') (Go TimeoutEnforcer)
        = (if Timeout (sys w) \<noteq> 0 then 1 else 0)) \<and>
   (Start h w = Some (r, w') \<and> Go TimeoutEnforcer \<in> set (events_since w w') \<longrightarrow>
      Timeout (sys w) \<noteq> 0) \<and>
   events_since v (snd (timeoutEnforcer h v)) =
     Sleep (Timeout (sys v)) #
     (if \<not> pipe_stdin (sys v) then []
      else [WriteStdin quit_sequence, Sleep (Second div 10)] @
        (if Died (sys v) \<or> exited (sched h (tick v)) \<or> exited (sched h (Suc (tick v))) then []
         else (case cmd (sys v) of
                 None \<Rightarrow> []
               | Some c \<Rightarrow>
                   if Process c then [Signal SIGTERM, Sleep (Second div 10), Signal SIGKILL]
                   else []))) \<and>
   KilledByTimeout (sys (snd (timeoutEnforcer h v))) \<and>
   count_list (events_since v (snd (timeoutEnforcer h v))) (WriteStdin quit_sequence)
     = (if pipe_stdin (sys v) then 1 else 0) \<and>
   (Start h w = Some (r, w') \<and> Go TimeoutEnforcer \<in> set (events_since w w') \<longrightarrow>
      (\<exists>p a. StartProcess p a \<in> set (events_since w w')))"
proof (intro conjI impI)
  assume H: "Start h w = Some (r, w') \<and> (\<exists>p a. StartProcess p a \<in> set (events_since w w'))"
  then obtain p a where S: "Start h w = Some (r, w')"
    and sp: "StartProcess p a \<in> set (events_since w w')"
    by blast
  from Start_started(1) [OF S sp]
  obtain es p' a' where lc: "\<forall>e \<in> set es. (\<exists>s. e = Listen s) \<or> (\<exists>s. e = CloseListener s)"
    and ev: "events_since w w' = es @
           [StartProcess p' a', Go ReadStdout, Go ReadStderr, Go WaitProcess,
            Sleep (Second div 10), Go PanicWatcher] @
           (if Timeout (sys w) \<noteq> 0 then [Go TimeoutEnforcer] else [])"
    by blast
  from lc have "Go TimeoutEnforcer \<notin> set es"
    by auto
  then have c0: "count_list es (Go TimeoutEnforcer) = 0"
    by simp
  show "count_list (events_since w w') (Go TimeoutEnforcer)
        = (if Timeout (sys w) \<noteq> 0 then 1 else 0)"
    unfolding ev using c0 by simp
next
  assume H: "Start h w = Some (r, w') \<and> Go TimeoutEnforcer \<in> set (events_since w w')"
  then have S: "Start h w = Some (r, w')"
    and go: "Go TimeoutEnforcer \<in> set (events_since w w')"
    by blast+
  from Start_go_started [OF S go]
  obtain p a where sp: "StartProcess p a \<in> set (events_since w w')"
    by blast
  from Start_started(1) [OF S sp]
  obtain es p' a' where lc: "\<forall>e \<in> set es. (\<exists>s. e = Listen s) \<or> (\<exists>s. e = CloseListener s)"
    and ev: "events_since w w' = es @
           [StartProcess p' a', Go ReadStdout, Go ReadStderr, Go WaitProcess,
            Sleep (Second div 10), Go PanicWatcher] @
           (if Timeout (sys w) \<noteq> 0 then [Go TimeoutEnforcer] else [])"
    by blast
  from lc have nes: "Go TimeoutEnforcer \<notin> set es"
    by auto
  show "Timeout (sys w) \<noteq> 0"
  proof
    assume "Timeout (sys w) = 0"
    with ev nes have "Go TimeoutEnforcer \<notin> set (events_since w w')"
      by simp
    with go show False
      by blast
  qed
next
  show "KilledByTimeout (sys (snd (timeoutEnforcer h v)))"
    by (simp add: timeoutEnforcer_def Let_def Stop_flags)
next
  show "count_list (events_since v (snd (timeoutEnforcer h v))) (WriteStdin quit_sequence)
     = (if pipe_stdin (sys v) then 1 else 0)"
    unfolding timeoutEnforcer_events by (simp split: option.splits)
next
  assume "Start h w = Some (r, w') \<and> Go TimeoutEnforcer \<in> set (events_since w w')"
  then have "Start h w = Some (r, w')" and "Go TimeoutEnforcer \<in> set (events_since w w')"
    by blast+
  then show "\<exists>p a. StartProcess p a \<in> set (events_since w w')"
    by (rule Start_go_started)
qed (rule timeoutEnforcer_events)

theorem timeout_enforcer_one_shot_witness:
  "\<exists>r w'. Start example_host (fresh\<lparr>sys := example_sys\<lparr>Timeout := 5 * Second\<rparr>\<rparr>) = Some (r, w') \<and>
     count_list (events_since (fresh\<lparr>sys := example_sys\<lparr>Timeout := 5 * Second\<rparr>\<rparr>) w')
       (Go TimeoutEnforcer) = 1 \<and>
     Go TimeoutEnforcer \<in> set (events_since (fresh\<lparr>sys := example_sys\<lparr>Timeout := 5 * Second\<rparr>\<rparr>) w') \<and>
     (\<exists>p a. StartProcess p a
        \<in> set (events_since (fresh\<lparr>sys := example_sys\<lparr>Timeout := 5 * Second\<rparr>\<rparr>) w')) \<and>
     Timeout (sys (fresh\<lparr>sys := example_sys\<lparr>Timeout := 5 * Second\<rparr>\<rparr>)) \<noteq> 0"
proof -
  let ?h = example_host
  let ?w = "fresh\<lparr>sys := example_sys\<lparr>Timeout := 5 * Second\<rparr>\<rparr>"
  let ?w2 = "rand_Seed (now ?h (tick ?w)) (?w\<lparr>tick := Suc (tick ?w)\<rparr>)"
  have acc: "\<forall>k s. listen_ok ?h k s"
    by (simp add: example_host_simps)
  have ok: "pipeErr ?h 0 = None" "pipeErr ?h 1 = None" "pipeErr ?h 2 = None" "startErr ?h = None"
    by (simp_all add: example_host_simps)
  from getFreeAddrPort_first_bind_succeeds [OF acc, of ?w2]
  obtain a w3 where g: "getFreeAddrPort ?h ?w2 = Some (Returned a, w3)"
    by blast
  from Start_spawns [OF g ok]
  obtain r w' where st: "Start ?h ?w = Some (r, w')"
    and sp: "\<exists>p a. StartProcess p a \<in> set (events_since ?w w')"
    by blast
  from st sp have H: "Start ?h ?w = Some (r, w') \<and>
      (\<exists>p a. StartProcess p a \<in> set (events_since ?w w'))"
    by (rule conjI)
  note T = timeout_enforcer_one_shot [of ?h ?w r w' ?w]
  from T [THEN conjunct1] H
  have "count_list (events_since ?w w') (Go TimeoutEnforcer)
      = (if Timeout (sys ?w) \<noteq> 0 then 1 else 0)"
    by (rule mp)
  then have c: "count_list (events_since ?w w') (Go TimeoutEnforcer) = 1"
    by (simp add: Second_def)
  then have m: "Go TimeoutEnforcer \<in> set (events_since ?w w')"
    by (metis count_list_0_iff zero_neq_one)
  from st m have G: "Start ?h ?w = Some (r, w') \<and> Go TimeoutEnforcer \<in> set (events_since ?w w')"
    by (rule conjI)
  with T [THEN conjunct2, THEN conjunct1] have t: "Timeout (sys ?w) \<noteq> 0"
    by (rule mp)
  from T [THEN conjunct2, THEN conjunct2, THEN conjunct2, THEN conjunct2, THEN conjunct2] G
  have s: "\<exists>p a. StartProcess p a \<in> set (events_since ?w w')"
    by (rule mp)
  from st c m s t show ?thesis
    by blast
qed

lemma Start_start_fails:
  assumes g: "getFreeAddrPort h (rand_Seed (now h (tick w)) (w\<lparr>tick := Suc (tick w)\<rparr>))
      = Some (Returned a, w3)"
    and ok: "pipeErr h 0 = None" "pipeErr h 1 = None" "pipeErr h 2 = None"
    and f: "startErr h = Some e"
  shows "\<exists>w'. Start h w = Some (Returned (Some e), w') \<and> trace w' = trace w3"
  using g ok f
  by (simp add: Start_def time_Now_def Let_def)

text \<open>
  The claim as it is written fails for a call of \<open>Start\<close> that ends before the child
  process is started: here the pipes open, \<open>cmd.Start\<close> fails, and \<open>Start\<close> returns
  that error with a timeout of five seconds configured and no enforcer launched.
\<close>

theorem no_timer_when_start_fails_counterexample:
  "\<exists>w'. Start (example_host\<lparr>startErr := Some (SyscallError ''fork/exec'' EACCES)\<rparr>)
          (fresh\<lparr>sys := example_sys\<lparr>Timeout := 5 * Second\<rparr>\<rparr>)
       = Some (Returned (Some (SyscallError ''fork/exec'' EACCES)), w') \<and>
     Go TimeoutEnforcer \<notin> set (events_since (fresh\<lparr>sys := example_sys\<lparr>Timeout := 5 * Second\<rparr>\<rparr>) w') \<and>
     Timeout (sys (fresh\<lparr>sys := example_sys\<lparr>Timeout := 5 * Second\<rparr>\<rparr>)) \<noteq> 0"
proof -
  let ?h = "example_host\<lparr>startErr := Some (SyscallError ''fork/exec'' EACCES)\<rparr>"
  let ?w = "fresh\<lparr>sys := example_sys\<lparr>Timeout := 5 * Second\<rparr>\<rparr>"
  let ?w2 = "rand_Seed (now ?h (tick ?w)) (?w\<lparr>tick := Suc (tick ?w)\<rparr>)"
  have acc: "\<forall>k s. listen_ok ?h k s"
    by (simp add: example_host_simps)
  have ok: "pipeErr ?h 0 = None" "pipeErr ?h 1 = None" "pipeErr ?h 2 = None"
    by (simp_all add: example_host_simps)
  have f: "startErr ?h = Some (SyscallError ''fork/exec'' EACCES)"
    by simp
  have w2: "trace ?w2 = trace ?w"
    by (simp add: rand_Seed_def)
  from getFreeAddrPort_first_bind_succeeds [OF acc, of ?w2]
  obtain a w3 where g: "getFreeAddrPort ?h ?w2 = Some (Returned a, w3)"
    by blast
  from getFreeAddrPort_ended [OF g] w2
  obtain es where es: "trace w3 = trace ?w @ es"
    and lc: "\<forall>e \<in> set es.
       (\<exists>v. e = Listen (fst (if GOOS ?h = ''linux'' then getRandomAddrPort ?h v
                              else getRandomPort ?h ''127.0.0.1'' v))) \<or>
       (\<exists>s. e = CloseListener s)"
    by auto
  from Start_start_fails [OF g ok f]
  obtain w' where st: "Start ?h ?w = Some (Returned (Some (SyscallError ''fork/exec'' EACCES)), w')"
    and tr: "trace w' = trace w3"
    by blast
  from tr es have "trace w' = trace ?w @ es"
    by simp
  then have ev: "events_since ?w w' = es"
    by (rule events_since_trace)
  from lc have "Go TimeoutEnforcer \<notin> set es"
    by auto
  with ev have no: "Go TimeoutEnforcer \<notin> set (events_since ?w w')"
    by simp
  have t: "Timeout (sys ?w) \<noteq> 0"
    by (simp add: Second_def)
  from st no t show ?thesis
    by blast
qed


text \<open>
  Claim C3, as the code has it. A call of \<open>Start\<close> that started the child process
  has launched the panic watcher once. The watcher sleeps a second and looks for
  \<open>Kernel panic\<close> in the stdout accumulator, again and again; at the first poll that
  finds it, it sleeps one more second, calls \<open>Stop\<close>, sets \<open>KernelPanic\<close> once \<open>Stop\<close>
  has returned, and ends. It looks at nothing else: whether \<open>Died\<close> is set or \<open>Stop\<close>
  has run before makes no difference, and as long as the text does not appear it
  polls for ever.
\<close>

theorem panicWatcher_behaviour:
  "(Start h v = Some (r, v') \<and> (\<exists>p a. StartProcess p a \<in> set (events_since v v')) \<longrightarrow>
      count_list (events_since v v') (Go PanicWatcher) = 1) \<and>
   ((\<forall>k<n. \<not> bytes_Contains (Stdout (sys (polls h (Suc k) w))) ''Kernel panic'') \<and>
    bytes_Contains (Stdout (sys (polls h (Suc n) w))) ''Kernel panic'' \<longrightarrow>
      panicWatcher h w =
        Some (case Stop h (time_Sleep h Second (polls h (Suc n) w)) of
                (Returned u, w3) \<Rightarrow> (Returned (), w3\<lparr>sys := (sys w3)\<lparr>KernelPanic := True\<rparr>\<rparr>)
              | (Panicked p, w3) \<Rightarrow> (Panicked p, w3)) \<and>
      trace (polls h (Suc n) w) = trace w @ replicate (Suc n) (Sleep Second)) \<and>
   ((\<forall>k. \<not> bytes_Contains (Stdout (sys (polls h (Suc k) w))) ''Kernel panic'') \<longrightarrow>
      panicWatcher h w = None)"
proof (intro conjI impI)
  assume H: "Start h v = Some (r, v') \<and> (\<exists>p a. StartProcess p a \<in> set (events_since v v'))"
  then obtain p a where S: "Start h v = Some (r, v')"
    and sp: "StartProcess p a \<in> set (events_since v v')"
    by blast
  from Start_started(1) [OF S sp]
  obtain es p' a' where lc: "\<forall>e \<in> set es. (\<exists>s. e = Listen s) \<or> (\<exists>s. e = CloseListener s)"
    and ev: "events_since v v' = es @
           [StartProcess p' a', Go ReadStdout, Go ReadStderr, Go WaitProcess,
            Sleep (Second div 10), Go PanicWatcher] @
           (if Timeout (sys v) \<noteq> 0 then [Go TimeoutEnforcer] else [])"
    by blast
  from lc have "Go PanicWatcher \<notin> set es"
    by auto
  then have c0: "count_list es (Go PanicWatcher) = 0"
    by simp
  show "count_list (events_since v v') (Go PanicWatcher) = 1"
    unfolding ev using c0 by simp
next
  assume "(\<forall>k<n. \<not> bytes_Contains (Stdout (sys (polls h (Suc k) w))) ''Kernel panic'') \<and>
    bytes_Contains (Stdout (sys (polls h (Suc n) w))) ''Kernel panic''"
  then show "panicWatcher h w =
        Some (case Stop h (time_Sleep h Second (polls h (Suc n) w)) of
                (Returned u, w3) \<Rightarrow> (Returned (), w3\<lparr>sys := (sys w3)\<lparr>KernelPanic := True\<rparr>\<rparr>)
              | (Panicked p, w3) \<Rightarrow> (Panicked p, w3))"
    by (intro panicWatcher_first_match) blast+
next
  show "trace (polls h (Suc n) w) = trace w @ replicate (Suc n) (Sleep Second)"
    by (rule polls_trace)
next
  assume never: "\<forall>k. \<not> bytes_Contains (Stdout (sys (polls h (Suc k) w))) ''Kernel panic''"
  show "panicWatcher h w = None"
  proof (rule ccontr)
    assume "panicWatcher h w \<noteq> None"
    then obtain y where "panicWatcher h w = Some y"
      by blast
    from panicWatcher_ended [OF this] never show False
      by blast
  qed
qed

lemma polls_Stdout_quiet:
  assumes "\<forall>k. out_bytes (sched h k) = []"
  shows "Stdout (sys (polls h n w)) = Stdout (sys w)"
  using assms
  by (induction n arbitrary: w) (simp_all add: time_Sleep_simps background_simps)

lemma watcher_finish:
  assumes "fst (Stop h x) = Returned ()"
  shows "(case Stop h x of
            (Returned u, w3) \<Rightarrow> (Returned (), f w3)
          | (Panicked p, w3) \<Rightarrow> (Panicked p, w3)) = (Returned (), f (snd (Stop h x)))"
  using assms by (cases "Stop h x") auto

theorem panicWatcher_behaviour_witness:
  "(\<exists>r v'. Start example_host fresh = Some (r, v') \<and>
      count_list (events_since fresh v') (Go PanicWatcher) = 1) \<and>
   (\<exists>w'. panicWatcher
       (example_host\<lparr>sched := (\<lambda>k. if k = 2 then quiet\<lparr>out_bytes := ''Kernel panic - not syncing''\<rparr>
                                   else quiet)\<rparr>) live = Some (Returned (), w') \<and>
      KernelPanic (sys w')) \<and>
   panicWatcher example_host live = None"
proof (intro conjI)
  let ?h = example_host
  let ?w2 = "rand_Seed (now ?h (tick fresh)) (fresh\<lparr>tick := Suc (tick fresh)\<rparr>)"
  have acc: "\<forall>k s. listen_ok ?h k s"
    by (simp add: example_host_simps)
  have ok: "pipeErr ?h 0 = None" "pipeErr ?h 1 = None" "pipeErr ?h 2 = None" "startErr ?h = None"
    by (simp_all add: example_host_simps)
  from getFreeAddrPort_first_bind_succeeds [OF acc, of ?w2]
  obtain a w3 where g: "getFreeAddrPort ?h ?w2 = Some (Returned a, w3)"
    by blast
  from Start_spawns [OF g ok]
  obtain r v' where st: "Start ?h fresh = Some (r, v')"
    and sp: "\<exists>p a. StartProcess p a \<in> set (events_since fresh v')"
    by blast
  from st sp have H: "Start ?h fresh = Some (r, v') \<and>
      (\<exists>p a. StartProcess p a \<in> set (events_since fresh v'))"
    by (rule conjI)
  from panicWatcher_behaviour [where h = ?h and v = fresh and r = r and v' = v',
      THEN conjunct1] H
  have "count_list (events_since fresh v') (Go PanicWatcher) = 1"
    by (rule mp)
  with st show "\<exists>r v'. Start example_host fresh = Some (r, v') \<and>
      count_list (events_since fresh v') (Go PanicWatcher) = 1"
    by blast
next
  let ?h = "example_host\<lparr>sched := (\<lambda>k. if k = 2 then quiet\<lparr>out_bytes := ''Kernel panic - not syncing''\<rparr>
                                   else quiet)\<rparr>"
  have s: "sched ?h k = (if k = 2 then quiet\<lparr>out_bytes := ''Kernel panic - not syncing''\<rparr>
                         else quiet)" for k
    by simp
  have p1: "\<not> bytes_Contains (Stdout (sys (polls ?h (Suc 0) live))) ''Kernel panic''"
    and p2: "\<not> bytes_Contains (Stdout (sys (polls ?h (Suc (Suc 0)) live))) ''Kernel panic''"
    and p3: "bytes_Contains (Stdout (sys (polls ?h (Suc (Suc (Suc 0))) live))) ''Kernel panic''"
    by (simp_all add: time_Sleep_simps background_simps live_simps s quiet_simps)
  have "\<forall>k<Suc (Suc 0). \<not> bytes_Contains (Stdout (sys (polls ?h (Suc k) live))) ''Kernel panic''"
    using p1 p2 by (simp add: less_Suc_eq)
  from this p3 have H: "(\<forall>k<Suc (Suc 0).
        \<not> bytes_Contains (Stdout (sys (polls ?h (Suc k) live))) ''Kernel panic'') \<and>
      bytes_Contains (Stdout (sys (polls ?h (Suc (Suc (Suc 0))) live))) ''Kernel panic''"
    by (rule conjI)
  let ?x = "time_Sleep ?h Second (polls ?h (Suc (Suc (Suc 0))) live)"
  from panicWatcher_behaviour [where h = ?h and w = live and n = "Suc (Suc 0)",
      THEN conjunct2, THEN conjunct1] H
  have "panicWatcher ?h live =
        Some (case Stop ?h ?x of
                (Returned u, w3) \<Rightarrow> (Returned (), w3\<lparr>sys := (sys w3)\<lparr>KernelPanic := True\<rparr>\<rparr>)
              | (Panicked p, w3) \<Rightarrow> (Panicked p, w3)) \<and>
      trace (polls ?h (Suc (Suc (Suc 0))) live)
        = trace live @ replicate (Suc (Suc (Suc 0))) (Sleep Second)"
    by (rule mp)
  then have pw: "panicWatcher ?h live =
        Some (case Stop ?h ?x of
                (Returned u, w3) \<Rightarrow> (Returned (), w3\<lparr>sys := (sys w3)\<lparr>KernelPanic := True\<rparr>\<rparr>)
              | (Panicked p, w3) \<Rightarrow> (Panicked p, w3))"
    by (rule conjunct1)
  have "fst (Stop ?h ?x) = Returned ()"
    by (simp add: Stop_def Let_def emit_simps time_Sleep_simps background_simps live_simps s
        quiet_simps)
  from pw [unfolded watcher_finish [OF this]]
  show "\<exists>w'. panicWatcher ?h live = Some (Returned (), w') \<and> KernelPanic (sys w')"
    by simp
next
  have q: "\<forall>k. out_bytes (sched example_host k) = []"
    by (simp add: example_host_simps quiet_simps)
  have "\<forall>k. \<not> bytes_Contains (Stdout (sys (polls example_host (Suc k) live))) ''Kernel panic''"
    unfolding polls_Stdout_quiet [OF q] by (simp add: live_simps)
  with panicWatcher_behaviour [where h = example_host and w = live,
      THEN conjunct2, THEN conjunct2]
  show "panicWatcher example_host live = None"
    by (rule mp)
qed

text \<open>
  The claim as it is written fails. Here the guest has printed the panic text and
  the timeout enforcer has run to its end: it has called \<open>Stop\<close>, the process has
  exited after the terminate signal and \<open>Died\<close> is set. The watcher, polling after
  that, still finds the text, calls \<open>Stop\<close> a second time (a second write of the quit
  sequence) and sets \<open>KernelPanic\<close>, so that both causes of death are recorded.
\<close>

theorem panicWatcher_after_Stop_counterexample:
  "fst (timeoutEnforcer
         (example_host\<lparr>sched := (\<lambda>k. if k = 2 then quiet\<lparr>exited := True\<rparr> else quiet)\<rparr>)
         (live\<lparr>sys := (sys live)\<lparr>Stdout := ''Kernel panic - not syncing'',
                                  Timeout := Second\<rparr>\<rparr>)) = Returned () \<and>
   Died (sys (snd (timeoutEnforcer
         (example_host\<lparr>sched := (\<lambda>k. if k = 2 then quiet\<lparr>exited := True\<rparr> else quiet)\<rparr>)
         (live\<lparr>sys := (sys live)\<lparr>Stdout := ''Kernel panic - not syncing'',
                                  Timeout := Second\<rparr>\<rparr>)))) \<and>
   (\<exists>w'. panicWatcher
         (example_host\<lparr>sched := (\<lambda>k. if k = 2 then quiet\<lparr>exited := True\<rparr> else quiet)\<rparr>)
         (snd (timeoutEnforcer
           (example_host\<lparr>sched := (\<lambda>k. if k = 2 then quiet\<lparr>exited := True\<rparr> else quiet)\<rparr>)
           (live\<lparr>sys := (sys live)\<lparr>Stdout := ''Kernel panic - not syncing'',
                                    Timeout := Second\<rparr>\<rparr>)))
       = Some (Returned (), w') \<and>
      KernelPanic (sys w') \<and> KilledByTimeout (sys w') \<and>
      count_list (trace w') (WriteStdin quit_sequence) = 2 \<and>
      count_list (trace w') (Signal SIGTERM) = 1)"
proof -
  let ?h = "example_host\<lparr>sched := (\<lambda>k. if k = 2 then quiet\<lparr>exited := True\<rparr> else quiet)\<rparr>"
  let ?w = "live\<lparr>sys := (sys live)\<lparr>Stdout := ''Kernel panic - not syncing'',
                                  Timeout := Second\<rparr>\<rparr>"
  let ?v = "snd (timeoutEnforcer ?h ?w)"
  have s: "sched ?h k = (if k = 2 then quiet\<lparr>exited := True\<rparr> else quiet)" for k
    by simp
  have e: "fst (timeoutEnforcer ?h ?w) = Returned ()"
    "Died (sys ?v)" "pipe_stdin (sys ?v)" "Stdout (sys ?v) = ''Kernel panic - not syncing''"
    "KilledByTimeout (sys ?v)" "tick ?v = 3"
    "count_list (trace ?v) (WriteStdin quit_sequence) = 1"
    "count_list (trace ?v) (Signal SIGTERM) = 1"
    by (simp_all add: timeoutEnforcer_def Stop_def Let_def emit_simps time_Sleep_simps
        background_simps live_simps s quiet_simps)
  have found: "bytes_Contains (Stdout (sys (time_Sleep ?h Second ?v))) ''Kernel panic''"
    by (simp add: time_Sleep_simps background_simps e s quiet_simps)
  let ?x = "time_Sleep ?h Second (time_Sleep ?h Second ?v)"
  have x: "pipe_stdin (sys ?x)" "Died (sys ?x)" "KilledByTimeout (sys ?x)"
    "trace ?x = trace ?v @ [Sleep Second, Sleep Second]"
    by (simp_all add: time_Sleep_simps background_simps e)
  have r: "fst (Stop ?h ?x) = Returned ()"
    using x(1,2) by (simp add: Stop_def Let_def emit_simps time_Sleep_simps background_simps)
  have k: "KilledByTimeout (sys (snd (Stop ?h ?x)))"
    using x(3) by (simp add: Stop_flags)
  have t: "trace (snd (Stop ?h ?x))
      = trace ?v @ [Sleep Second, Sleep Second, WriteStdin quit_sequence, Sleep (Second div 10)]"
    using x(1,2,4) by (simp add: Stop_trace)
  have "panicWatcher ?h ?v =
      Some (Returned (), (snd (Stop ?h ?x))\<lparr>sys := (sys (snd (Stop ?h ?x)))\<lparr>KernelPanic := True\<rparr>\<rparr>)"
    unfolding panicWatcher_found [OF found] watcher_finish [OF r] ..
  moreover have "count_list (trace (snd (Stop ?h ?x))) (WriteStdin quit_sequence) = 2"
    "count_list (trace (snd (Stop ?h ?x))) (Signal SIGTERM) = 1"
    unfolding t using e(7,8) by simp_all
  ultimately have "\<exists>w'. panicWatcher ?h ?v = Some (Returned (), w') \<and>
      KernelPanic (sys w') \<and> KilledByTimeout (sys w') \<and>
      count_list (trace w') (WriteStdin quit_sequence) = 2 \<and>
      count_list (trace w') (Signal SIGTERM) = 1"
    using k by simp
  with e(1,2) show ?thesis
    by (intro conjI)
qed

end
